theory Spec2Isabelle
  imports Main
begin

section \<open>JavaScript strings and numbers\<close>

text \<open>
  The program is TypeScript. Its strings are modelled as \<open>string\<close> (code units below 256,
  which covers every character the functions below test for). A number is a double; the
  model has the numbers that are integers, as \<open>int\<close>, and \<open>NaN\<close> where \<open>parseInt\<close> can
  produce it. A double holds every integer up to \<open>2^53\<close> in magnitude exactly; the
  theorems that depend on the value of a number bound it so.
\<close>

datatype number = NaN | Num int

text \<open>The characters matched by \<open>\s\<close>, removed by \<open>trim\<close> and skipped by \<open>parseInt\<close>:
  tab, line feed, vertical tab, form feed, carriage return, space, no-break space.\<close>

definition is_space :: "char \<Rightarrow> bool" where
  "is_space c =
     (c = CHR 0x09 \<or> c = CHR 0x0A \<or> c = CHR 0x0B \<or> c = CHR 0x0C \<or> c = CHR 0x0D \<or>
      c = CHR 0x20 \<or> c = CHR 0xA0)"

definition is_digit :: "char \<Rightarrow> bool" where
  "is_digit c = (48 \<le> (of_char c :: nat) \<and> (of_char c :: nat) \<le> 57)"

definition digit_val :: "char \<Rightarrow> nat" where
  "digit_val c = of_char c - 48"

definition is_hex_digit :: "char \<Rightarrow> bool" where
  "is_hex_digit c =
     (is_digit c \<or> (65 \<le> (of_char c :: nat) \<and> (of_char c :: nat) \<le> 70) \<or>
      (97 \<le> (of_char c :: nat) \<and> (of_char c :: nat) \<le> 102))"

definition hex_val :: "char \<Rightarrow> nat" where
  "hex_val c =
     (if is_digit c then of_char c - 48
      else if (of_char c :: nat) \<le> 70 then of_char c - 55
      else of_char c - 87)"

text \<open>\<open>s.trim()\<close>\<close>

definition trim :: "string \<Rightarrow> string" where
  "trim s = rev (dropWhile is_space (rev (dropWhile is_space s)))"

text \<open>\<open>s.startsWith(p)\<close> and \<open>s.endsWith(p)\<close>\<close>

definition startsWith :: "string \<Rightarrow> string \<Rightarrow> bool" where
  "startsWith s p = (take (length p) s = p)"

definition endsWith :: "string \<Rightarrow> string \<Rightarrow> bool" where
  "endsWith s p = (length p \<le> length s \<and> drop (length s - length p) s = p)"

text \<open>\<open>s.includes(" ")\<close>, for a one-character argument\<close>

definition includes_char :: "string \<Rightarrow> char \<Rightarrow> bool" where
  "includes_char s c = (c \<in> set s)"

text \<open>\<open>s.split(c)\<close> for a one-character separator: never empty, \<open>"".split(c)\<close> is \<open>[""]\<close>.\<close>

fun split :: "char \<Rightarrow> string \<Rightarrow> string list" where
  "split sep [] = [[]]"
| "split sep (c # cs) =
     (if c = sep then [] # split sep cs
      else (case split sep cs of
              [] \<Rightarrow> [[c]]
            | p # ps \<Rightarrow> (c # p) # ps))"

text \<open>\<open>s.split(/\s+/)\<close>: the pieces between maximal runs of white space; a string that begins
  (ends) with white space yields an empty first (last) piece, and \<open>"".split(/\s+/)\<close> is \<open>[""]\<close>.\<close>

function split_ws :: "string \<Rightarrow> string list" where
  "split_ws s =
     (let piece = takeWhile (\<lambda>c. \<not> is_space c) s;
          rest = dropWhile (\<lambda>c. \<not> is_space c) s
      in if rest = [] then [piece]
         else piece # split_ws (dropWhile is_space rest))"
  by pat_completeness auto
termination
proof (relation "measure length")
  show "wf (measure length)" by simp
next
  fix s :: string and piece rest
  assume r: "rest = dropWhile (\<lambda>c. \<not> is_space c) s" and ne: "rest \<noteq> []"
  from ne obtain c cs where rc: "rest = c # cs" by (cases rest) auto
  have "length (dropWhile is_space rest) \<le> length cs"
  proof -
    have "dropWhile (\<lambda>c. \<not> is_space c) s \<noteq> []" using r ne by simp
    from hd_dropWhile [OF this] have "is_space (hd rest)" unfolding r by simp
    then have "is_space c" unfolding rc by simp
    then have "dropWhile is_space rest = dropWhile is_space cs" using rc by simp
    then show ?thesis by (simp add: length_dropWhile_le)
  qed
  moreover have "length rest \<le> length s" using r by (simp add: length_dropWhile_le)
  ultimately show "(dropWhile is_space rest, s) \<in> measure length" using rc by simp
qed

declare split_ws.simps [simp del]

text \<open>\<open>parts.join(sep)\<close>\<close>

fun join :: "string \<Rightarrow> string list \<Rightarrow> string" where
  "join sep [] = []"
| "join sep [x] = x"
| "join sep (x # y # ys) = x @ sep @ join sep (y # ys)"

text \<open>\<open>s.replace(p, "")\<close> for a string pattern: the first occurrence of \<open>p\<close> is removed.\<close>

fun remove_first :: "string \<Rightarrow> string \<Rightarrow> string" where
  "remove_first p [] = []"
| "remove_first p (c # cs) =
     (if startsWith (c # cs) p then drop (length p) (c # cs)
      else c # remove_first p cs)"

text \<open>\<open>s.replace(/\.$/, "")\<close>: a final dot is removed.\<close>

definition remove_final_dot :: "string \<Rightarrow> string" where
  "remove_final_dot s = (if endsWith s ''.'' then butlast s else s)"

text \<open>\<open>s.toLowerCase()\<close> on code units below 256: the letters A-Z and the accented capitals
  of Latin-1 (all of 0xC0-0xDE but the multiplication sign 0xD7) move up by 32.\<close>

definition lower_char :: "char \<Rightarrow> char" where
  "lower_char c =
     (let n = (of_char c :: nat)
      in if (65 \<le> n \<and> n \<le> 90) \<or> (192 \<le> n \<and> n \<le> 222 \<and> n \<noteq> 215)
         then char_of (n + 32) else c)"

definition toLowerCase :: "string \<Rightarrow> string" where
  "toLowerCase s = map lower_char s"

text \<open>The notation of an integer number, as template literals and string concatenation
  produce it: the decimal digits below \<open>1e21\<close> in magnitude, the exponent notation from there
  on (\<open>1e+21\<close>, \<open>1.5e+21\<close>). In the exponent notation JS writes the digits of the shortest
  decimal that reads back as the same double; the model writes the digits of the integer
  without its final zeros, which is the same for a number with few digits such as a power
  of ten. Likewise from \<open>2^53\<close> up to \<open>1e21\<close> JS writes that shortest decimal filled up with
  zeros and the model writes the integer's own digits; below \<open>2^53\<close>, where every integer is
  a double, the two agree, and the theorems on \<open>toString\<close> are stated for that range.\<close>

fun digits_of :: "nat \<Rightarrow> string" where
  "digits_of n =
     (if n < 10 then [char_of (48 + n)]
      else digits_of (n div 10) @ [char_of (48 + n mod 10)])"

declare digits_of.simps [simp del]

definition exponent_notation :: "nat \<Rightarrow> string" where
  "exponent_notation m =
     (let ds = digits_of m;
          fraction = rev (dropWhile (\<lambda>c. c = CHR ''0'') (rev (drop 1 ds)))
      in take 1 ds @ (if fraction = [] then [] else CHR ''.'' # fraction) @ ''e+'' @
         digits_of (length ds - 1))"

definition toString :: "int \<Rightarrow> string" where
  "toString i =
     (if \<bar>i\<bar> < 1000000000000000000000
      then (if i < 0 then CHR ''-'' # digits_of (nat (- i)) else digits_of (nat i))
      else (if i < 0 then CHR ''-'' # exponent_notation (nat (- i))
            else exponent_notation (nat i)))"

text \<open>The double nearest to a non-negative integer (ties go to the even significand of 53 bits):
  the number itself below \<open>2^53 = 9007199254740992\<close>. (From \<open>2^1024\<close> on JS has
  \<open>Infinity\<close>, which the model leaves out.)\<close>

fun bit_length :: "nat \<Rightarrow> nat" where
  "bit_length n = (if n = 0 then 0 else Suc (bit_length (n div 2)))"

declare bit_length.simps [simp del]

definition to_double :: "int \<Rightarrow> int" where
  "to_double m =
     (if m < 9007199254740992 then m
      else (let e = bit_length (nat m) - 53;
                q = m div 2 ^ e;
                r = m mod 2 ^ e;
                half = 2 ^ (e - 1)
            in (if half < r \<or> (r = half \<and> odd q) then q + 1 else q) * 2 ^ e))"

text \<open>\<open>parseInt(s)\<close> with no radix: leading white space is skipped, one sign is read, a
  prefix \<open>0x\<close> or \<open>0X\<close> selects base 16, then the longest run of digits is read and what
  follows is ignored; no digit at all gives \<open>NaN\<close>. The result is the double nearest to the
  number read.\<close>

definition digits_value :: "nat \<Rightarrow> (char \<Rightarrow> nat) \<Rightarrow> string \<Rightarrow> nat" where
  "digits_value base val ds = foldl (\<lambda>a c. base * a + val c) 0 ds"

definition parse_magnitude :: "string \<Rightarrow> nat option" where
  "parse_magnitude u =
     (if startsWith u ''0x'' \<or> startsWith u ''0X''
      then (let ds = takeWhile is_hex_digit (drop 2 u)
            in if ds = [] then None else Some (nat (to_double (int (digits_value 16 hex_val ds)))))
      else (let ds = takeWhile is_digit u
            in if ds = [] then None else Some (nat (to_double (int (digits_value 10 digit_val ds))))))"

definition parseInt :: "string \<Rightarrow> number" where
  "parseInt s =
     (let t = dropWhile is_space s;
          neg = startsWith t ''-'';
          u = (if startsWith t ''-'' \<or> startsWith t ''+'' then drop 1 t else t)
      in case parse_magnitude u of
           None \<Rightarrow> NaN
         | Some m \<Rightarrow> Num (if neg then - int m else int m))"

text \<open>\<open>x || d\<close> for a number \<open>x\<close>: \<open>NaN\<close> and \<open>0\<close> are falsy.\<close>

definition number_or :: "number \<Rightarrow> int \<Rightarrow> int" where
  "number_or x d = (case x of NaN \<Rightarrow> d | Num n \<Rightarrow> if n = 0 then d else n)"

section \<open>Data model (\<open>types.ts\<close>)\<close>

datatype dns_record_type =
  TypeA | TypeAAAA | TypeCNAME | TypeMX | TypeTXT | TypeNS | TypeSRV | TypeCAA | TypePTR

fun type_name :: "dns_record_type \<Rightarrow> string" where
  "type_name TypeA = ''A''"
| "type_name TypeAAAA = ''AAAA''"
| "type_name TypeCNAME = ''CNAME''"
| "type_name TypeMX = ''MX''"
| "type_name TypeTXT = ''TXT''"
| "type_name TypeNS = ''NS''"
| "type_name TypeSRV = ''SRV''"
| "type_name TypeCAA = ''CAA''"
| "type_name TypePTR = ''PTR''"

text \<open>\<open>DnsRecordImportType\<close>: the record descriptor that detection produces and import
  consumes. An optional field is an \<open>option\<close>.\<close>

record dns_record_import =
  imp_type :: dns_record_type
  imp_name :: string
  imp_content :: string
  imp_ttl :: "int option"
  imp_priority :: "number option"
  imp_proxied :: "bool option"

text \<open>\<open>CreateDnsRecord\<close>: the body of a create-record request.\<close>

record create_dns_record =
  new_type :: dns_record_type
  new_name :: string
  new_content :: string
  new_ttl :: int
  new_priority :: "number option"
  new_proxied :: "bool option"

text \<open>\<open>DnsRecord\<close>: a record as the provider stores it (the optional \<open>meta\<close> object, which
  no function reads, is left out).\<close>

record dns_record =
  rec_id :: string
  rec_zone_id :: "string option"
  rec_zone_name :: "string option"
  rec_name :: string
  rec_type :: dns_record_type
  rec_content :: string
  rec_proxied :: "bool option"
  rec_ttl :: int
  rec_priority :: "number option"
  rec_created_on :: string
  rec_modified_on :: string

datatype zone_status = Active | Pending | Initializing | Moved | Deleted | Deactivated

fun status_name :: "zone_status \<Rightarrow> string" where
  "status_name Active = ''active''"
| "status_name Pending = ''pending''"
| "status_name Initializing = ''initializing''"
| "status_name Moved = ''moved''"
| "status_name Deleted = ''deleted''"
| "status_name Deactivated = ''deactivated''"

datatype zone_kind = Full | Partial

text \<open>\<open>Zone\<close> (of its optional fields only \<open>original_name_servers\<close> is kept; no function
  reads the others).\<close>

record zone =
  zone_id :: string
  zone_name :: string
  zone_status :: zone_status
  zone_paused :: bool
  zone_type :: zone_kind
  zone_development_mode :: int
  zone_name_servers :: "string list"
  zone_original_name_servers :: "string list option"
  zone_modified_on :: string
  zone_created_on :: string

text \<open>\<open>CreateZone\<close>; the type is the caller's string, cast without a check.\<close>

record create_zone =
  cz_name :: string
  cz_type :: string
  cz_jump_start :: bool

text \<open>\<open>ApiResponse\<close>: the provider's envelope. Its \<open>result\<close> is absent or null, one record,
  or an array of records.\<close>

record api_error =
  err_code :: int
  err_message :: string

datatype api_result = NoResult | Single dns_record | Multiple "dns_record list"

record api_response =
  resp_success :: bool
  resp_errors :: "api_error list"
  resp_result :: api_result

text \<open>The public resolver's answer: \<open>{Status, Answer?: [{type, data, TTL?}]}\<close>.\<close>

record answer =
  ans_type :: int
  ans_data :: string
  ans_TTL :: "int option"

record resolver_data =
  Status :: int
  Answer :: "answer list option"

section \<open>Exceptions, effects and the outside world\<close>

text \<open>A thrown value is an \<open>Error\<close> with its name and message, or something that is not an
  \<open>Error\<close>. \<open>new Error(m)\<close> has the name \<open>Error\<close>.\<close>

datatype thrown = Error string string | NonError

definition new_Error :: "string \<Rightarrow> thrown" where
  "new_Error m = Error ''Error'' m"

text \<open>\<open>error instanceof Error ? error.message : "Unknown error"\<close>\<close>

definition error_message :: "thrown \<Rightarrow> string" where
  "error_message error = (case error of Error n m \<Rightarrow> m | NonError \<Rightarrow> ''Unknown error'')"

text \<open>An asynchronous function is a function of the state \<open>'w\<close> of the outside world (the
  provider's zones and records, the public DNS) that returns what it returns or throws,
  together with the world it leaves. Logging (\<open>console.warn\<close>, \<open>console.error\<close>) is not
  modelled.\<close>

type_synonym ('a, 'w) io = "'w \<Rightarrow> (thrown + 'a) \<times> 'w"

definition return :: "'a \<Rightarrow> ('a, 'w) io" where
  "return x = (\<lambda>w. (Inr x, w))"

definition throw :: "thrown \<Rightarrow> ('a, 'w) io" where
  "throw e = (\<lambda>w. (Inl e, w))"

definition lift :: "thrown + 'a \<Rightarrow> ('a, 'w) io" where
  "lift r = (\<lambda>w. (r, w))"

definition bind :: "('a, 'w) io \<Rightarrow> ('a \<Rightarrow> ('b, 'w) io) \<Rightarrow> ('b, 'w) io" where
  "bind m f = (\<lambda>w. case m w of (Inl e, w') \<Rightarrow> (Inl e, w') | (Inr x, w') \<Rightarrow> f x w')"

definition try_catch :: "('a, 'w) io \<Rightarrow> (thrown \<Rightarrow> ('a, 'w) io) \<Rightarrow> ('a, 'w) io" where
  "try_catch m h = (\<lambda>w. case m w of (Inl e, w') \<Rightarrow> h e w' | (Inr x, w') \<Rightarrow> (Inr x, w'))"

text \<open>\<open>xs.map(f)\<close> for an \<open>f\<close> that may throw: the first throw ends the map.\<close>

fun map_throwing :: "('a \<Rightarrow> thrown + 'b) \<Rightarrow> 'a list \<Rightarrow> thrown + 'b list" where
  "map_throwing f [] = Inr []"
| "map_throwing f (x # xs) =
     (case f x of
        Inl e \<Rightarrow> Inl e
      | Inr y \<Rightarrow> (case map_throwing f xs of Inl e \<Rightarrow> Inl e | Inr ys \<Rightarrow> Inr (y # ys)))"

datatype request_body = RecordBody create_dns_record | ZoneBody create_zone

record request =
  req_url :: string
  req_method :: string
  req_headers :: "(string \<times> string) list"
  req_body :: "request_body option"

text \<open>An HTTP response; \<open>json\<close> is what \<open>response.json()\<close> returns or throws. The payload \<open>'j\<close>
  is opaque.\<close>

record 'j response =
  ok :: bool
  status :: int
  statusText :: string
  json :: "thrown + 'j"

text \<open>What the program takes from outside: the global \<open>fetch\<close>, which acts on the world; the
  parsers of the schema library (\<open>Schema.parse(x)\<close> returns the validated value or throws),
  which are not part of the repository; and the reading of a resolver payload as
  \<open>{Status, Answer}\<close>, which throws where a property of \<open>null\<close> would be read. What the
  schemas of \<open>types.ts\<close> make these parsers do on the typed values of the model is written out
  after the record.\<close>

record ('w, 'j) env =
  fetch :: "request \<Rightarrow> ('j response, 'w) io"
  CloudflareApiResponse_parse :: "'j \<Rightarrow> thrown + api_response"
  CloudflareZone_parse :: "dns_record \<Rightarrow> thrown + zone"
  CreateDnsRecordRequest_parse :: "create_dns_record \<Rightarrow> thrown + create_dns_record"
  CreateZoneRequest_parse :: "create_zone \<Rightarrow> thrown + create_zone"
  DnsRecordImport_parse :: "dns_record_import \<Rightarrow> thrown + dns_record_import"
  resolver_view :: "'j \<Rightarrow> thrown + resolver_data"

text \<open>The schemas of \<open>types.ts\<close>, on values that are typed already. \<open>z.number()\<close> rejects
  \<open>NaN\<close>, so a descriptor or a request with the priority \<open>NaN\<close> is rejected; nothing else
  in a typed descriptor or request can fail.\<close>

definition DnsRecordImport_schema :: "dns_record_import \<Rightarrow> thrown + dns_record_import" where
  "DnsRecordImport_schema r =
     (if imp_priority r = Some NaN then Inl (Error ''ZodError'' ''Expected number, received nan'')
      else Inr r)"

definition CreateDnsRecordRequest_schema :: "create_dns_record \<Rightarrow> thrown + create_dns_record" where
  "CreateDnsRecordRequest_schema r =
     (if new_priority r = Some NaN then Inl (Error ''ZodError'' ''Expected number, received nan'')
      else Inr r)"

text \<open>\<open>CreateZoneRequest\<close>: the type is \<open>full\<close> or \<open>partial\<close>.\<close>

definition CreateZoneRequest_schema :: "create_zone \<Rightarrow> thrown + create_zone" where
  "CreateZoneRequest_schema z =
     (if cz_type z = ''full'' \<or> cz_type z = ''partial'' then Inr z
      else Inl (Error ''ZodError'' ''Invalid enum value''))"

text \<open>\<open>CloudflareZone.parse(data.result)\<close>. Its argument has passed \<open>CloudflareApiResponse\<close>,
  whose \<open>result\<close> is a \<open>CloudflareDnsRecord\<close>: it has no \<open>status\<close>, \<open>paused\<close>,
  \<open>development_mode\<close> or \<open>name_servers\<close>, which \<open>CloudflareZone\<close> requires, and its \<open>type\<close> is
  a record type where \<open>CloudflareZone\<close> requires \<open>full\<close> or \<open>partial\<close>. So the schema rejects
  every such value.\<close>

definition CloudflareZone_schema :: "dns_record \<Rightarrow> thrown + zone" where
  "CloudflareZone_schema r = Inl (Error ''ZodError'' ''Required'')"

text \<open>\<open>cloudflareConfig\<close>: set once, read by every call. An empty string is a missing value.\<close>

record config =
  apiToken :: string
  zoneId :: string
  email :: "string option"

section \<open>The provider client (\<open>api.ts\<close>)\<close>

definition getHeaders :: "config \<Rightarrow> thrown + (string \<times> string) list" where
  "getHeaders cfg =
     (if apiToken cfg = [] then Inl (new_Error ''Cloudflare API Token not configured'')
      else Inr [(''Authorization'', ''Bearer '' @ apiToken cfg),
                (''Content-Type'', ''application/json'')])"

text \<open>\<open>api(endpoint, method, body, useZoneId)\<close>. The 15 second timer is part of \<open>fetch\<close>, which
  then throws an \<open>AbortError\<close>.\<close>

definition api ::
  "('w, 'j) env \<Rightarrow> config \<Rightarrow> string \<Rightarrow> string \<Rightarrow> request_body option \<Rightarrow> bool \<Rightarrow> ('j response, 'w) io"
where
  "api env cfg endpoint method body useZoneId =
     try_catch
       (bind (if useZoneId
              then (if zoneId cfg = [] then throw (new_Error ''Cloudflare Zone ID not configured'')
                    else return (''https://api.cloudflare.com/client/v4/zones/'' @ zoneId cfg @ ''/'' @ endpoint))
              else return (''https://api.cloudflare.com/client/v4/'' @ endpoint))
          (\<lambda>url. bind (lift (getHeaders cfg))
          (\<lambda>headers. bind (fetch env \<lparr>req_url = url, req_method = method, req_headers = headers, req_body = body\<rparr>)
          (\<lambda>response.
             if \<not> ok response
             then throw (new_Error (''Cloudflare API error: '' @ toString (status response) @ '' '' @ statusText response))
             else return response))))
       (\<lambda>error. case error of
          Error n m \<Rightarrow>
            if n = ''AbortError'' then throw (new_Error ''Cloudflare API request timed out'')
            else throw (new_Error (''Cloudflare API error: '' @ m))
        | NonError \<Rightarrow> throw error)"

text \<open>\<open>`API Error: ${data.errors.map((e) => e.message).join(", ")}`\<close>\<close>

definition api_error_text :: "api_response \<Rightarrow> string" where
  "api_error_text data = ''API Error: '' @ join '', '' (map err_message (resp_errors data))"

definition listDnsRecords :: "('w, 'j) env \<Rightarrow> config \<Rightarrow> (dns_record list, 'w) io" where
  "listDnsRecords env cfg =
     bind (api env cfg ''dns_records'' ''GET'' None True)
     (\<lambda>response. bind (lift (json response))
     (\<lambda>rawData.
        try_catch
          (bind (lift (CloudflareApiResponse_parse env rawData))
           (\<lambda>data.
              if \<not> resp_success data then throw (new_Error (api_error_text data))
              else (case resp_result data of
                      NoResult \<Rightarrow> return []
                    | Multiple records \<Rightarrow> return records
                    | Single r \<Rightarrow> return [r])))
          (\<lambda>parseError.
             throw (new_Error (''Failed to parse API response: '' @ error_message parseError)))))"

definition createDnsRecord :: "('w, 'j) env \<Rightarrow> config \<Rightarrow> create_dns_record \<Rightarrow> (dns_record, 'w) io" where
  "createDnsRecord env cfg record =
     bind (lift (CreateDnsRecordRequest_parse env record))
     (\<lambda>validatedRecord. bind (api env cfg ''dns_records'' ''POST'' (Some (RecordBody validatedRecord)) True)
     (\<lambda>response. bind (lift (json response))
     (\<lambda>rawData. bind (lift (CloudflareApiResponse_parse env rawData))
     (\<lambda>data.
        if \<not> resp_success data then throw (new_Error (api_error_text data))
        else (case resp_result data of
                Single r \<Rightarrow> return r
              | NoResult \<Rightarrow> throw (new_Error ''Failed to create DNS record'')
              | Multiple rs \<Rightarrow> throw (new_Error ''Failed to create DNS record''))))))"

definition createZone :: "('w, 'j) env \<Rightarrow> config \<Rightarrow> create_zone \<Rightarrow> (zone, 'w) io" where
  "createZone env cfg zoneData =
     bind (lift (CreateZoneRequest_parse env zoneData))
     (\<lambda>validatedZone. bind (api env cfg ''zones'' ''POST'' (Some (ZoneBody validatedZone)) False)
     (\<lambda>response. bind (lift (json response))
     (\<lambda>rawData.
        try_catch
          (bind (lift (CloudflareApiResponse_parse env rawData))
           (\<lambda>data.
              if \<not> resp_success data then throw (new_Error (api_error_text data))
              else (case resp_result data of
                      Single r \<Rightarrow> lift (CloudflareZone_parse env r)
                    | NoResult \<Rightarrow> throw (new_Error ''Failed to create zone'')
                    | Multiple rs \<Rightarrow> throw (new_Error ''Failed to create zone''))))
          (\<lambda>parseError.
             throw (new_Error (''Failed to parse zone creation response: '' @ error_message parseError))))))"

text \<open>\<open>zoneId || cloudflareConfig.zoneId\<close>: an absent or empty argument falls back to the
  configured zone.\<close>

definition zone_or_default :: "config \<Rightarrow> string option \<Rightarrow> string" where
  "zone_or_default cfg z = (case z of None \<Rightarrow> zoneId cfg | Some i \<Rightarrow> if i = [] then zoneId cfg else i)"

definition getZone :: "('w, 'j) env \<Rightarrow> config \<Rightarrow> string option \<Rightarrow> (zone, 'w) io" where
  "getZone env cfg z =
     (let targetZoneId = zone_or_default cfg z
      in if targetZoneId = [] then throw (new_Error ''Zone ID not provided and not configured'')
         else
           bind (api env cfg (''zones/'' @ targetZoneId) ''GET'' None False)
           (\<lambda>response. bind (lift (json response))
           (\<lambda>rawData.
              try_catch
                (bind (lift (CloudflareApiResponse_parse env rawData))
                 (\<lambda>data.
                    if \<not> resp_success data then throw (new_Error (api_error_text data))
                    else (case resp_result data of
                            Single r \<Rightarrow> lift (CloudflareZone_parse env r)
                          | NoResult \<Rightarrow> throw (new_Error ''Zone not found'')
                          | Multiple rs \<Rightarrow> throw (new_Error ''Zone not found''))))
                (\<lambda>parseError.
                   throw (new_Error (''Failed to parse zone response: '' @ error_message parseError))))))"

text \<open>\<open>x || d\<close> for an optional number \<open>x\<close>: \<open>undefined\<close> and \<open>0\<close> are falsy.\<close>

definition int_or :: "int option \<Rightarrow> int \<Rightarrow> int" where
  "int_or x d = (case x of None \<Rightarrow> d | Some n \<Rightarrow> if n = 0 then d else n)"

text \<open>\<open>createRecordData\<close> of \<open>importDnsRecords\<close>\<close>

definition createRecordData :: "dns_record_import \<Rightarrow> create_dns_record" where
  "createRecordData record =
     \<lparr>new_type = imp_type record, new_name = imp_name record, new_content = imp_content record,
      new_ttl = int_or (imp_ttl record) 1, new_priority = imp_priority record,
      new_proxied = imp_proxied record\<rparr>"

text \<open>The loop of \<open>importDnsRecords\<close>: a record that is created is pushed; a failure is logged
  and the loop goes on.\<close>

fun import_loop ::
  "('w, 'j) env \<Rightarrow> config \<Rightarrow> dns_record_import list \<Rightarrow> dns_record list \<Rightarrow> 'w \<Rightarrow> dns_record list \<times> 'w"
where
  "import_loop env cfg [] createdRecords w = (createdRecords, w)"
| "import_loop env cfg (record # rest) createdRecords w =
     (case createDnsRecord env cfg (createRecordData record) w of
        (Inr createdRecord, w') \<Rightarrow> import_loop env cfg rest (createdRecords @ [createdRecord]) w'
      | (Inl error, w') \<Rightarrow> import_loop env cfg rest createdRecords w')"

definition importDnsRecords ::
  "('w, 'j) env \<Rightarrow> config \<Rightarrow> dns_record_import list \<Rightarrow> string option \<Rightarrow> (dns_record list, 'w) io"
where
  "importDnsRecords env cfg records z =
     (if zone_or_default cfg z = [] then throw (new_Error ''Zone ID not provided and not configured'')
      else bind (lift (map_throwing (DnsRecordImport_parse env) records))
           (\<lambda>validatedRecords w.
              case import_loop env cfg validatedRecords [] w of
                (createdRecords, w') \<Rightarrow> (Inr createdRecords, w')))"

text \<open>\<open>fetch(url)\<close> followed by \<open>response.json()\<close>, read as a resolver answer.\<close>

definition resolve :: "('w, 'j) env \<Rightarrow> string \<Rightarrow> string \<Rightarrow> (resolver_data, 'w) io" where
  "resolve env name t =
     bind (fetch env \<lparr>req_url = ''https://dns.google/resolve?name='' @ name @ ''&type='' @ t,
                        req_method = ''GET'', req_headers = [], req_body = None\<rparr>)
     (\<lambda>response. bind (lift (json response))
     (\<lambda>raw. lift (resolver_view env raw)))"

definition checkNameserverPropagation ::
  "('w, 'j) env \<Rightarrow> string \<Rightarrow> string list \<Rightarrow> (bool, 'w) io"
where
  "checkNameserverPropagation env domain expectedNameservers =
     try_catch
       (bind (resolve env domain ''NS'')
        (\<lambda>data.
           if Status data \<noteq> 0 then return False
           else (case Answer data of
                   None \<Rightarrow> return False
                 | Some answers \<Rightarrow>
                     (let currentNameservers =
                            map (\<lambda>record. toLowerCase (ans_data record))
                              (filter (\<lambda>record. ans_type record = 2) answers)
                      in return (list_all (\<lambda>ns. toLowerCase ns \<in> set currentNameservers)
                                   expectedNameservers)))))
       (\<lambda>error. return False)"

record validation =
  valid :: bool
  issues :: "string list"

text \<open>\<open>validateZoneSetup(zoneId)\<close>. The handler pushes onto the issues collected before the
  throw, so the two calls that can throw are taken apart.\<close>

definition validateZoneSetup :: "('w, 'j) env \<Rightarrow> config \<Rightarrow> string \<Rightarrow> (validation, 'w) io" where
  "validateZoneSetup env cfg zid =
     (\<lambda>w. case getZone env cfg (Some zid) w of
        (Inl error, w1) \<Rightarrow>
          (Inr \<lparr>valid = False,
                issues = [''Failed to validate zone: '' @ error_message error]\<rparr>, w1)
      | (Inr z, w1) \<Rightarrow>
          (let issues1 = (if zone_status z \<noteq> Active
                          then [''Zone status is '' @ status_name (zone_status z) @ '', should be active'']
                          else []);
               issues2 = (if zone_name_servers z = []
                          then issues1 @ [''No nameservers found for zone'']
                          else issues1)
           in case listDnsRecords env cfg w1 of
                (Inl error, w2) \<Rightarrow>
                  (Inr \<lparr>valid = False,
                        issues = issues2 @ [''Failed to validate zone: '' @ error_message error]\<rparr>, w2)
              | (Inr dnsRecords, w2) \<Rightarrow>
                  (let issues3 = (if length dnsRecords = 0
                                  then issues2 @ [''No DNS records found in zone'']
                                  else issues2)
                   in (Inr \<lparr>valid = (length issues3 = 0), issues = issues3\<rparr>, w2))))"

section \<open>Detection and replication\<close>

text \<open>\<open>getDnsTypeNumber\<close>: \<open>typeMap[type] || 1\<close>\<close>

definition getDnsTypeNumber :: "string \<Rightarrow> int" where
  "getDnsTypeNumber t =
     int_or (map_of [(''A'', 1), (''AAAA'', 28), (''CNAME'', 5), (''MX'', 15), (''TXT'', 16),
                     (''NS'', 2), (''SRV'', 33), (''CAA'', 257)] t) 1"

definition recordTypes :: "dns_record_type list" where
  "recordTypes = [TypeA, TypeAAAA, TypeCNAME, TypeMX, TypeTXT, TypeNS, TypeSRV, TypeCAA]"

definition commonSubdomains :: "string list" where
  "commonSubdomains = [''www'', ''mail'', ''ftp'', ''blog'', ''shop'', ''api'', ''admin'']"

text \<open>The descriptor pushed for a matching answer in the first loop of \<open>detectDnsRecords\<close>.\<close>

definition base_descriptor :: "string \<Rightarrow> dns_record_type \<Rightarrow> answer \<Rightarrow> dns_record_import" where
  "base_descriptor domain recordType a =
     \<lparr>imp_type = recordType, imp_name = domain, imp_content = ans_data a,
      imp_ttl = Some (int_or (ans_TTL a) 300),
      imp_priority = (if includes_char (ans_data a) CHR '' ''
                      then Some (parseInt (hd (split CHR '' '' (ans_data a))))
                      else None),
      imp_proxied = Some False\<rparr>"

text \<open>The descriptor pushed for a matching answer in the second loop: no priority field.\<close>

definition subdomain_descriptor :: "string \<Rightarrow> answer \<Rightarrow> dns_record_import" where
  "subdomain_descriptor subdomainName a =
     \<lparr>imp_type = TypeA, imp_name = subdomainName, imp_content = ans_data a,
      imp_ttl = Some (int_or (ans_TTL a) 300), imp_priority = None, imp_proxied = Some False\<rparr>"

text \<open>One round of the first loop: what it pushes. A throw inside the \<open>try\<close> is logged and
  the round pushes nothing.\<close>

definition detect_type ::
  "('w, 'j) env \<Rightarrow> string \<Rightarrow> dns_record_type \<Rightarrow> 'w \<Rightarrow> dns_record_import list \<times> 'w"
where
  "detect_type env domain recordType w =
     (case resolve env domain (type_name recordType) w of
        (Inl error, w') \<Rightarrow> ([], w')
      | (Inr data, w') \<Rightarrow>
          (if Status data = 0
           then (case Answer data of
                   None \<Rightarrow> []
                 | Some answers \<Rightarrow>
                     map (base_descriptor domain recordType)
                       (filter (\<lambda>a. ans_type a = getDnsTypeNumber (type_name recordType)) answers))
           else [], w'))"

fun detect_types ::
  "('w, 'j) env \<Rightarrow> string \<Rightarrow> dns_record_type list \<Rightarrow> dns_record_import list \<Rightarrow> 'w
     \<Rightarrow> dns_record_import list \<times> 'w"
where
  "detect_types env domain [] detectedRecords w = (detectedRecords, w)"
| "detect_types env domain (recordType # rest) detectedRecords w =
     (case detect_type env domain recordType w of
        (pushed, w') \<Rightarrow> detect_types env domain rest (detectedRecords @ pushed) w')"

text \<open>One round of the second loop: a type A query for \<open>subdomain.domain\<close>; a throw is
  swallowed.\<close>

definition detect_subdomain ::
  "('w, 'j) env \<Rightarrow> string \<Rightarrow> string \<Rightarrow> 'w \<Rightarrow> dns_record_import list \<times> 'w"
where
  "detect_subdomain env domain subdomain w =
     (let subdomainName = subdomain @ ''.'' @ domain
      in case resolve env subdomainName ''A'' w of
           (Inl error, w') \<Rightarrow> ([], w')
         | (Inr data, w') \<Rightarrow>
             (if Status data = 0
              then (case Answer data of
                      None \<Rightarrow> []
                    | Some answers \<Rightarrow>
                        map (subdomain_descriptor subdomainName)
                          (filter (\<lambda>a. ans_type a = 1) answers))
              else [], w'))"

fun detect_subdomains ::
  "('w, 'j) env \<Rightarrow> string \<Rightarrow> string list \<Rightarrow> dns_record_import list \<Rightarrow> 'w
     \<Rightarrow> dns_record_import list \<times> 'w"
where
  "detect_subdomains env domain [] detectedRecords w = (detectedRecords, w)"
| "detect_subdomains env domain (subdomain # rest) detectedRecords w =
     (case detect_subdomain env domain subdomain w of
        (pushed, w') \<Rightarrow> detect_subdomains env domain rest (detectedRecords @ pushed) w')"

definition detectDnsRecords :: "('w, 'j) env \<Rightarrow> string \<Rightarrow> (dns_record_import list, 'w) io" where
  "detectDnsRecords env domain =
     try_catch
       (\<lambda>w. case detect_types env domain recordTypes [] w of
          (detectedRecords, w1) \<Rightarrow>
            (case detect_subdomains env domain commonSubdomains detectedRecords w1 of
               (detectedRecords', w2) \<Rightarrow> (Inr detectedRecords', w2)))
       (\<lambda>error. throw (new_Error (''Failed to detect DNS records: '' @ error_message error)))"

record replication_result =
  detected :: "dns_record_import list"
  replicated :: "dns_record list"
  errors :: "string list"

text \<open>The body of \<open>replicateDnsRecords\<close>, over the two methods of \<open>CloudflareApi\<close> it calls.\<close>

definition replicateDnsRecords_via ::
  "(string \<Rightarrow> (dns_record_import list, 'w) io) \<Rightarrow>
   (dns_record_import list \<Rightarrow> string option \<Rightarrow> (dns_record list, 'w) io) \<Rightarrow>
   string \<Rightarrow> string option \<Rightarrow> (replication_result, 'w) io"
where
  "replicateDnsRecords_via detect import sourceDomain targetZoneId =
     try_catch
       (bind (detect sourceDomain)
        (\<lambda>detectedRecords.
           if length detectedRecords = 0
           then return \<lparr>detected = [], replicated = [],
                         errors = [''No DNS records detected for the domain'']\<rparr>
           else bind (import detectedRecords targetZoneId)
                (\<lambda>replicatedRecords.
                   return \<lparr>detected = detectedRecords, replicated = replicatedRecords,
                           errors = []\<rparr>)))
       (\<lambda>error.
          return \<lparr>detected = [], replicated = [],
                  errors = [''Failed to replicate DNS records: '' @ error_message error]\<rparr>)"

definition replicateDnsRecords ::
  "('w, 'j) env \<Rightarrow> config \<Rightarrow> string \<Rightarrow> string option \<Rightarrow> (replication_result, 'w) io"
where
  "replicateDnsRecords env cfg =
     replicateDnsRecords_via (detectDnsRecords env) (importDnsRecords env cfg)"

section \<open>The zone-file codec\<close>

text \<open>The line that \<open>exportZoneFile\<close> appends for one record.\<close>

definition zone_file_line :: "string \<Rightarrow> dns_record \<Rightarrow> string" where
  "zone_file_line zoneName record =
     (let name = (if rec_name record = zoneName then ''@''
                  else remove_first (''.'' @ zoneName) (rec_name record));
          ttl = int_or (Some (rec_ttl record)) 300;
          priority = (case rec_priority record of
                        None \<Rightarrow> []
                      | Some NaN \<Rightarrow> []
                      | Some (Num n) \<Rightarrow> if n = 0 then [] else toString n @ '' '');
          content = rec_content record
      in name @ [CHR 0x09] @ toString ttl @ [CHR 0x09] @ ''IN'' @ [CHR 0x09] @
         type_name (rec_type record) @ [CHR 0x09] @ priority @ content @ [CHR 0x0A])"

text \<open>The text that \<open>exportZoneFile\<close> builds from the zone's name and the records.\<close>

definition zone_file_text :: "string \<Rightarrow> dns_record list \<Rightarrow> string" where
  "zone_file_text zoneName records =
     ''$ORIGIN '' @ zoneName @ ''.'' @ [CHR 0x0A] @ ''$TTL 300'' @ [CHR 0x0A, CHR 0x0A] @
     concat (map (zone_file_line zoneName) records)"

definition exportZoneFile :: "('w, 'j) env \<Rightarrow> config \<Rightarrow> string option \<Rightarrow> (string, 'w) io" where
  "exportZoneFile env cfg z =
     (let targetZoneId = zone_or_default cfg z
      in if targetZoneId = [] then throw (new_Error ''Zone ID not provided and not configured'')
         else bind (listDnsRecords env cfg)
              (\<lambda>records. bind (getZone env cfg (Some targetZoneId))
              (\<lambda>z. return (zone_file_text (zone_name z) records))))"

text \<open>The record types that \<open>parseZoneFile\<close> accepts, by name.\<close>

definition zone_file_type :: "string \<Rightarrow> dns_record_type option" where
  "zone_file_type recordType =
     map_of [(''A'', TypeA), (''AAAA'', TypeAAAA), (''CNAME'', TypeCNAME), (''MX'', TypeMX),
             (''TXT'', TypeTXT), (''NS'', TypeNS), (''SRV'', TypeSRV), (''CAA'', TypeCAA)] recordType"

datatype line_effect =
    Skip
  | SetTtl int
  | SetOrigin string
  | Push create_dns_record

text \<open>One round of the loop of \<open>parseZoneFile\<close>, for the current \<open>defaultTtl\<close> and \<open>origin\<close>.
  \<open>$ORIGIN\<close> with nothing after it reads \<open>undefined.replace\<close>, which throws a
  \<open>TypeError\<close>; \<open>$TTL\<close> with nothing after it parses \<open>undefined\<close>, which is \<open>NaN\<close>.\<close>

definition parse_line :: "int \<Rightarrow> string \<Rightarrow> string \<Rightarrow> thrown + line_effect" where
  "parse_line defaultTtl origin line =
     (let trimmedLine = trim line
      in if startsWith trimmedLine '';'' \<or> trimmedLine = [] then Inr Skip
         else if startsWith trimmedLine ''$TTL''
         then Inr (SetTtl (case drop 1 (split_ws trimmedLine) of
                             [] \<Rightarrow> 300
                           | t # _ \<Rightarrow> number_or (parseInt t) 300))
         else if startsWith trimmedLine ''$ORIGIN''
         then (case drop 1 (split_ws trimmedLine) of
                 [] \<Rightarrow> Inl (Error ''TypeError'' ''Cannot read properties of undefined'')
               | t # _ \<Rightarrow> Inr (SetOrigin (remove_final_dot t)))
         else (let parts = split_ws trimmedLine
               in if length parts \<ge> 4
                  then (let name = (if parts ! 0 = ''@'' then origin else parts ! 0);
                            ttl = number_or (parseInt (parts ! 1)) defaultTtl;
                            recordType = parts ! 3;
                            content = join '' '' (drop 4 parts)
                        in case zone_file_type recordType of
                             None \<Rightarrow> Inr Skip
                           | Some t \<Rightarrow>
                               Inr (Push
                                 \<lparr>new_type = t,
                                  new_name = (if endsWith name ''.'' then butlast name else name),
                                  new_content = content,
                                  new_ttl = ttl,
                                  new_priority = (if recordType = ''MX'' \<and> length parts \<ge> 5
                                                  then Some (parseInt (parts ! 4)) else None),
                                  new_proxied = Some False\<rparr>))
                  else Inr Skip))"

fun parse_lines ::
  "int \<Rightarrow> string \<Rightarrow> create_dns_record list \<Rightarrow> string list \<Rightarrow> thrown + create_dns_record list"
where
  "parse_lines defaultTtl origin records [] = Inr records"
| "parse_lines defaultTtl origin records (line # lines) =
     (case parse_line defaultTtl origin line of
        Inl error \<Rightarrow> Inl error
      | Inr Skip \<Rightarrow> parse_lines defaultTtl origin records lines
      | Inr (SetTtl t) \<Rightarrow> parse_lines t origin records lines
      | Inr (SetOrigin name) \<Rightarrow> parse_lines defaultTtl name records lines
      | Inr (Push record) \<Rightarrow> parse_lines defaultTtl origin (records @ [record]) lines)"

definition parseZoneFile :: "string \<Rightarrow> thrown + create_dns_record list" where
  "parseZoneFile content = parse_lines 300 [] [] (split CHR 0x0A content)"

record zone_file_import =
  imported :: "dns_record list"
  import_errors :: "string list"

text \<open>The loop of \<open>importZoneFile\<close>: here a failed creation is pushed onto \<open>errors\<close>.\<close>

fun import_zone_loop ::
  "('w, 'j) env \<Rightarrow> config \<Rightarrow> create_dns_record list \<Rightarrow> zone_file_import \<Rightarrow> 'w
     \<Rightarrow> zone_file_import \<times> 'w"
where
  "import_zone_loop env cfg [] acc w = (acc, w)"
| "import_zone_loop env cfg (record # rest) acc w =
     (case createDnsRecord env cfg record w of
        (Inr createdRecord, w') \<Rightarrow>
          import_zone_loop env cfg rest (acc\<lparr>imported := imported acc @ [createdRecord]\<rparr>) w'
      | (Inl error, w') \<Rightarrow>
          import_zone_loop env cfg rest
            (acc\<lparr>import_errors := import_errors acc @
               [''Failed to import record '' @ new_name record @ '': '' @ error_message error]\<rparr>) w')"

definition importZoneFile ::
  "('w, 'j) env \<Rightarrow> config \<Rightarrow> string \<Rightarrow> string option \<Rightarrow> (zone_file_import, 'w) io"
where
  "importZoneFile env cfg zoneFileContent z =
     (case parseZoneFile zoneFileContent of
        Inl error \<Rightarrow>
          return \<lparr>imported = [],
                  import_errors = [''Failed to parse zone file: '' @ error_message error]\<rparr>
      | Inr records \<Rightarrow>
          (\<lambda>w. case import_zone_loop env cfg records \<lparr>imported = [], import_errors = []\<rparr> w of
                 (r, w') \<Rightarrow> (Inr r, w')))"

section \<open>The migration orchestrator\<close>

record migration_result = replication_result +
  zone :: "zone option"
  nextSteps :: "string list"

text \<open>\<open>migrateDomainWithDetection(domain, zoneType)\<close>. The placeholder \<open>{} as Zone\<close> of the
  handler is \<open>None\<close>.\<close>

definition migrateDomainWithDetection ::
  "('w, 'j) env \<Rightarrow> config \<Rightarrow> string \<Rightarrow> string option \<Rightarrow> (migration_result, 'w) io"
where
  "migrateDomainWithDetection env cfg domain zoneType =
     try_catch
       (bind (createZone env cfg
                \<lparr>cz_name = domain,
                 cz_type = (case zoneType of None \<Rightarrow> ''full'' | Some t \<Rightarrow> if t = [] then ''full'' else t),
                 cz_jump_start = False\<rparr>)
        (\<lambda>z. bind (replicateDnsRecords env cfg domain (Some (zone_id z)))
        (\<lambda>replication.
           (let steps =
                  [''1. Update your domain's nameservers at your registrar to: '' @
                     join '', '' (zone_name_servers z),
                   ''2. Monitor nameserver propagation using check_nameserver_propagation tool'',
                   ''3. Validate setup using validate_zone_setup tool with zone ID: '' @ zone_id z]
            in if length (errors replication) > 0
               then return \<lparr>detected = detected replication, replicated = replicated replication,
                             errors = errors replication, zone = Some z,
                             nextSteps = steps @
                               [''4. Review and fix any DNS record import errors: '' @
                                  join '', '' (errors replication)]\<rparr>
               else return \<lparr>detected = detected replication, replicated = replicated replication,
                             errors = [], zone = Some z, nextSteps = steps\<rparr>))))
       (\<lambda>error.
          return \<lparr>detected = [], replicated = [],
                  errors = [''Migration failed: '' @ error_message error], zone = None,
                  nextSteps = [''Fix the errors and retry the migration'']\<rparr>)"

section \<open>Reference notions of the specification\<close>

text \<open>The first white-space-delimited token of a string.\<close>

definition first_token :: "string \<Rightarrow> string" where
  "first_token s = takeWhile (\<lambda>c. \<not> is_space c) s"

text \<open>The answers that the base-domain phase turns into descriptors, in order: for each
  queried type in turn, the answers to the lookup for that type whose type code is the code
  of the queried type; a lookup that fails, has a status other than 0 or has no answer list
  gives none.\<close>

fun matching_answers ::
  "('w, 'j) env \<Rightarrow> string \<Rightarrow> dns_record_type list \<Rightarrow> 'w \<Rightarrow> (dns_record_type \<times> answer) list"
where
  "matching_answers env domain [] w = []"
| "matching_answers env domain (t # ts) w =
     (case resolve env domain (type_name t) w of
        (Inl e, w') \<Rightarrow> matching_answers env domain ts w'
      | (Inr data, w') \<Rightarrow>
          (if Status data = 0
           then (case Answer data of
                   None \<Rightarrow> []
                 | Some answers \<Rightarrow>
                     map (Pair t)
                       (filter (\<lambda>a. ans_type a = getDnsTypeNumber (type_name t)) answers))
           else []) @ matching_answers env domain ts w')"

text \<open>The white-space-delimited tokens of a string: a content "up to formatting white
  space" is its tokens joined by single spaces.\<close>

definition tokens :: "string \<Rightarrow> string list" where
  "tokens s = filter (\<lambda>p. p \<noteq> []) (split_ws s)"

text \<open>\<open>s.trimEnd()\<close>, the second half of \<open>trim\<close>.\<close>

definition trim_end :: "string \<Rightarrow> string" where
  "trim_end s = rev (dropWhile is_space (rev s))"

text \<open>The line that \<open>exportZoneFile\<close> writes, without its newline, for a record at the apex
  that has no priority.\<close>

definition apex_line :: "dns_record \<Rightarrow> string" where
  "apex_line r =
     ''@'' @ [CHR 0x09] @ toString (int_or (Some (rec_ttl r)) 300) @ [CHR 0x09] @ ''IN'' @
     [CHR 0x09] @ type_name (rec_type r) @ [CHR 0x09] @ rec_content r"

text \<open>The number of creations that throw when the loop of \<open>importDnsRecords\<close> runs over the
  given records from the given world.\<close>

fun creation_failures ::
  "('w, 'j) env \<Rightarrow> config \<Rightarrow> dns_record_import list \<Rightarrow> 'w \<Rightarrow> nat"
where
  "creation_failures env cfg [] w = 0"
| "creation_failures env cfg (record # rest) w =
     (case createDnsRecord env cfg (createRecordData record) w of
        (Inl error, w') \<Rightarrow> Suc (creation_failures env cfg rest w')
      | (Inr createdRecord, w') \<Rightarrow> creation_failures env cfg rest w')"

section \<open>A scripted outside world\<close>

text \<open>For concrete runs: the world is the number of requests sent so far, a table gives the
  response to each request (none: \<open>fetch\<close> throws), and the schema parsers are those of
  \<open>types.ts\<close>. A payload is an envelope with DNS records in it, an envelope whose result is a
  zone object, a resolver answer or something else; the envelope schema, whose result is a
  DNS record, accepts only the first.\<close>

datatype payload =
  ApiPayload api_response | ZonePayload zone | ResolverPayload resolver_data | Garbage

definition stub_env :: "(request \<Rightarrow> payload response option) \<Rightarrow> (nat, payload) env" where
  "stub_env table =
     \<lparr>fetch = (\<lambda>rq n. (case table rq of
                           None \<Rightarrow> Inl (Error ''TypeError'' ''fetch failed'')
                         | Some r \<Rightarrow> Inr r, Suc n)),
      CloudflareApiResponse_parse =
        (\<lambda>j. case j of ApiPayload r \<Rightarrow> Inr r | _ \<Rightarrow> Inl (Error ''ZodError'' ''Invalid input'')),
      CloudflareZone_parse = CloudflareZone_schema,
      CreateDnsRecordRequest_parse = CreateDnsRecordRequest_schema,
      CreateZoneRequest_parse = CreateZoneRequest_schema,
      DnsRecordImport_parse = DnsRecordImport_schema,
      resolver_view =
        (\<lambda>j. case j of ResolverPayload d \<Rightarrow> Inr d | _ \<Rightarrow> Inl (Error ''TypeError'' ''not an object''))\<rparr>"

definition answers_response :: "answer list \<Rightarrow> payload response" where
  "answers_response as =
     \<lparr>ok = True, status = 200, statusText = ''OK'',
      json = Inr (ResolverPayload \<lparr>Status = 0, Answer = Some as\<rparr>)\<rparr>"

text \<open>A public DNS in which only \<open>www.example.com\<close> resolves, through a CNAME to an address.\<close>

definition www_only :: "request \<Rightarrow> payload response option" where
  "www_only rq =
     (if req_url rq = ''https://dns.google/resolve?name=www.example.com&type=A''
      then Some (answers_response
                   [\<lparr>ans_type = 5, ans_data = ''example.com.'', ans_TTL = Some 60\<rparr>,
                    \<lparr>ans_type = 1, ans_data = ''93.184.216.34'', ans_TTL = None\<rparr>])
      else None)"

text \<open>A public DNS in which \<open>example.com\<close> has an address, a mail exchanger and two text
  records.\<close>

definition apex_records :: "request \<Rightarrow> payload response option" where
  "apex_records rq =
     (if req_url rq = ''https://dns.google/resolve?name=example.com&type=A''
      then Some (answers_response [\<lparr>ans_type = 1, ans_data = ''93.184.216.34'', ans_TTL = Some 60\<rparr>])
      else if req_url rq = ''https://dns.google/resolve?name=example.com&type=MX''
      then Some (answers_response [\<lparr>ans_type = 15, ans_data = ''10 mail.example.com.'', ans_TTL = Some 60\<rparr>])
      else if req_url rq = ''https://dns.google/resolve?name=example.com&type=TXT''
      then Some (answers_response
                   [\<lparr>ans_type = 16, ans_data = ''v=spf1 -all'', ans_TTL = Some 60\<rparr>,
                    \<lparr>ans_type = 16, ans_data = ''5 abc'', ans_TTL = Some 0\<rparr>])
      else None)"

text \<open>A public DNS in which \<open>example.com\<close> is delegated to three name servers.\<close>

definition ns_records :: "request \<Rightarrow> payload response option" where
  "ns_records rq =
     (if req_url rq = ''https://dns.google/resolve?name=example.com&type=NS''
      then Some (answers_response
                   [\<lparr>ans_type = 2, ans_data = ''NS1.X.COM'', ans_TTL = Some 60\<rparr>,
                    \<lparr>ans_type = 2, ans_data = ''ns2.x.com'', ans_TTL = Some 60\<rparr>,
                    \<lparr>ans_type = 2, ans_data = ''ns3.x.com'', ans_TTL = Some 60\<rparr>])
      else None)"

text \<open>A world in which every request fails, and a configuration.\<close>

definition silent :: "request \<Rightarrow> payload response option" where
  "silent rq = None"

definition test_config :: config where
  "test_config = \<lparr>apiToken = ''token'', zoneId = ''Z0'', email = None\<rparr>"

text \<open>A provider that creates the zone \<open>example.com\<close> and answers with the zone in its
  envelope.\<close>

definition new_zone :: zone where
  "new_zone =
     \<lparr>zone_id = ''Z1'', zone_name = ''example.com'', zone_status = Pending, zone_paused = False,
      zone_type = Full, zone_development_mode = 0,
      zone_name_servers = [''ns1.x.com'', ''ns2.x.com''], zone_original_name_servers = None,
      zone_modified_on = ''2024-01-01'', zone_created_on = ''2024-01-01''\<rparr>"

definition zone_response :: "zone \<Rightarrow> payload response" where
  "zone_response z = \<lparr>ok = True, status = 200, statusText = ''OK'', json = Inr (ZonePayload z)\<rparr>"

definition ok_response :: "api_result \<Rightarrow> payload response" where
  "ok_response r =
     \<lparr>ok = True, status = 200, statusText = ''OK'',
      json = Inr (ApiPayload \<lparr>resp_success = True, resp_errors = [], resp_result = r\<rparr>)\<rparr>"


text \<open>A provider whose zone \<open>Z1\<close> is pending, has two name servers and no record, and a
  configuration for that zone.\<close>

definition zone_config :: config where
  "zone_config = \<lparr>apiToken = ''token'', zoneId = ''Z1'', email = None\<rparr>"

definition pending_zone :: "request \<Rightarrow> payload response option" where
  "pending_zone rq =
     (if req_url rq = ''https://api.cloudflare.com/client/v4/zones/Z1'' \<and> req_method rq = ''GET''
      then Some (zone_response new_zone)
      else if req_url rq = ''https://api.cloudflare.com/client/v4/zones/Z1/dns_records'' \<and>
              req_method rq = ''GET''
      then Some (ok_response (Multiple []))
      else None)"

text \<open>A public DNS in which \<open>example.com\<close> has an address and a mail exchanger, and a provider
  that creates the address record and refuses the mail exchanger.\<close>

definition created_record :: dns_record where
  "created_record =
     \<lparr>rec_id = ''r1'', rec_zone_id = Some ''Z0'', rec_zone_name = None, rec_name = ''example.com'',
      rec_type = TypeA, rec_content = ''93.184.216.34'', rec_proxied = Some False, rec_ttl = 60,
      rec_priority = None, rec_created_on = ''2024-01-01'', rec_modified_on = ''2024-01-01''\<rparr>"

definition refused_response :: "payload response" where
  "refused_response =
     \<lparr>ok = True, status = 200, statusText = ''OK'',
      json = Inr (ApiPayload \<lparr>resp_success = False,
                               resp_errors = [\<lparr>err_code = 81057, err_message = ''Record already exists.''\<rparr>],
                               resp_result = NoResult\<rparr>)\<rparr>"

definition mail_records :: "request \<Rightarrow> payload response option" where
  "mail_records rq =
     (if req_url rq = ''https://dns.google/resolve?name=example.com&type=A''
      then Some (answers_response [\<lparr>ans_type = 1, ans_data = ''93.184.216.34'', ans_TTL = Some 60\<rparr>])
      else if req_url rq = ''https://dns.google/resolve?name=example.com&type=MX''
      then Some (answers_response [\<lparr>ans_type = 15, ans_data = ''10 mail.example.com.'', ans_TTL = Some 60\<rparr>])
      else if req_url rq = ''https://api.cloudflare.com/client/v4/zones/Z0/dns_records'' \<and>
              req_method rq = ''POST''
      then (case req_body rq of
              Some (RecordBody b) \<Rightarrow>
                if new_type b = TypeA then Some (ok_response (Single created_record))
                else Some refused_response
            | _ \<Rightarrow> None)
      else None)"

definition mail_descriptors :: "dns_record_import list" where
  "mail_descriptors =
     [\<lparr>imp_type = TypeA, imp_name = ''example.com'', imp_content = ''93.184.216.34'',
       imp_ttl = Some 60, imp_priority = None, imp_proxied = Some False\<rparr>,
      \<lparr>imp_type = TypeMX, imp_name = ''example.com'', imp_content = ''10 mail.example.com.'',
       imp_ttl = Some 60, imp_priority = Some (Num 10), imp_proxied = Some False\<rparr>]"

text \<open>A public DNS whose two mail exchanger answers begin with a tab and with a space.\<close>

definition odd_answers :: "request \<Rightarrow> payload response option" where
  "odd_answers rq =
     (if req_url rq = ''https://dns.google/resolve?name=example.com&type=MX''
      then Some (answers_response
                   [\<lparr>ans_type = 15, ans_data = CHR 0x09 # ''7 x'', ans_TTL = Some 60\<rparr>,
                    \<lparr>ans_type = 15, ans_data = '' 7 x'', ans_TTL = Some 60\<rparr>])
      else None)"

text \<open>What detection finds in the world \<open>apex_records\<close>.\<close>

definition apex_descriptors :: "dns_record_import list" where
  "apex_descriptors =
     [\<lparr>imp_type = TypeA, imp_name = ''example.com'', imp_content = ''93.184.216.34'',
       imp_ttl = Some 60, imp_priority = None, imp_proxied = Some False\<rparr>,
      \<lparr>imp_type = TypeMX, imp_name = ''example.com'', imp_content = ''10 mail.example.com.'',
       imp_ttl = Some 60, imp_priority = Some (Num 10), imp_proxied = Some False\<rparr>,
      \<lparr>imp_type = TypeTXT, imp_name = ''example.com'', imp_content = ''v=spf1 -all'',
       imp_ttl = Some 60, imp_priority = Some NaN, imp_proxied = Some False\<rparr>,
      \<lparr>imp_type = TypeTXT, imp_name = ''example.com'', imp_content = ''5 abc'',
       imp_ttl = Some 300, imp_priority = Some (Num 5), imp_proxied = Some False\<rparr>]"

text \<open>A zone file whose first record line uses \<open>@\<close> before the \<open>$ORIGIN\<close> directive.\<close>

definition early_at_file :: string where
  "early_at_file =
     ''; zone'' @ [CHR 0x0A] @ ''@ 300 IN A 1.2.3.4'' @ [CHR 0x0A] @
     ''$ORIGIN example.com.'' @ [CHR 0x0A] @ ''@ 600 IN A 5.6.7.8''"

text \<open>A stored record with the given type, name, content, TTL and priority.\<close>

definition stored :: "dns_record_type \<Rightarrow> string \<Rightarrow> string \<Rightarrow> int \<Rightarrow> number option \<Rightarrow> dns_record" where
  "stored t n c ttl p =
     \<lparr>rec_id = ''r1'', rec_zone_id = None, rec_zone_name = None, rec_name = n, rec_type = t,
      rec_content = c, rec_proxied = Some False, rec_ttl = ttl, rec_priority = p,
      rec_created_on = ''2024-01-01'', rec_modified_on = ''2024-01-01''\<rparr>"

section \<open>Strings: auxiliary facts\<close>

lemmas io_defs = return_def throw_def lift_def bind_def try_catch_def

lemma split_nonempty: "split sep s \<noteq> []"
  by (induction s) (auto split: list.splits)

lemma hd_split: "hd (split sep s) = takeWhile (\<lambda>c. c \<noteq> sep) s"
  by (induction s) (auto split: list.splits simp: split_nonempty)

lemma is_space_not_digit: "is_space c \<Longrightarrow> \<not> is_digit c"
  by (auto simp: is_space_def is_digit_def)

lemma is_space_not_hex_digit: "is_space c \<Longrightarrow> \<not> is_hex_digit c"
  by (auto simp: is_space_def is_hex_digit_def is_digit_def)

lemma takeWhile_tail:
  assumes "r = [] \<or> \<not> P (hd r)"
  shows "takeWhile P (u @ r) = takeWhile P u"
proof (cases "\<forall>c \<in> set u. P c")
  case True
  then have a: "takeWhile P u = u" by (simp add: takeWhile_eq_all_conv)
  have b: "takeWhile P (u @ r) = u @ takeWhile P r" using True by (simp add: takeWhile_append2)
  have c: "takeWhile P r = []" using assms by (cases r) auto
  show ?thesis unfolding a b c by simp
next
  case False
  then show ?thesis by (auto simp: takeWhile_append1)
qed

lemma startsWith_tail:
  assumes "r = [] \<or> is_space (hd r)" "\<forall>c \<in> set p. \<not> is_space c"
  shows "startsWith (u @ r) p = startsWith u p"
proof (cases "length p \<le> length u")
  case True
  then show ?thesis by (simp add: startsWith_def)
next
  case False
  show ?thesis
  proof (cases r)
    case Nil
    then show ?thesis by simp
  next
    case (Cons c cs)
    with assms have c: "is_space c" by simp
    have "take (length p) (u @ r) \<noteq> p"
    proof
      assume e: "take (length p) (u @ r) = p"
      have "c \<in> set (take (length p) (u @ r))"
        using False Cons by (cases "length p - length u") auto
      with e assms(2) c show False by auto
    qed
    moreover have "take (length p) u \<noteq> p"
      using False by (metis length_take min.absorb2 nat_le_linear min.absorb1)
    ultimately show ?thesis by (simp add: startsWith_def)
  qed
qed

text \<open>\<open>parseInt\<close> does not read past white space that follows the number.\<close>

lemma parse_magnitude_tail:
  assumes "r = [] \<or> is_space (hd r)"
  shows "parse_magnitude (u @ r) = parse_magnitude u"
proof -
  have nd: "r = [] \<or> \<not> is_digit (hd r)" "r = [] \<or> \<not> is_hex_digit (hd r)"
    using assms is_space_not_digit is_space_not_hex_digit by auto
  have s1: "startsWith (u @ r) ''0x'' = startsWith u ''0x''"
    by (rule startsWith_tail [OF assms]) (simp add: is_space_def)
  have s2: "startsWith (u @ r) ''0X'' = startsWith u ''0X''"
    by (rule startsWith_tail [OF assms]) (simp add: is_space_def)
  show ?thesis
  proof (cases "startsWith u ''0x'' \<or> startsWith u ''0X''")
    case True
    then have "2 \<le> length u"
      by (auto simp: startsWith_def)
         (metis length_take min.cobounded1 length_Cons list.size(3) One_nat_def Suc_1)+
    then have "drop 2 (u @ r) = drop 2 u @ r" by simp
    then show ?thesis
      using True s1 s2 takeWhile_tail [of r is_hex_digit "drop 2 u", OF nd(2)]
      by (simp add: parse_magnitude_def)
  next
    case False
    then show ?thesis
      using s1 s2 takeWhile_tail [of r is_digit u, OF nd(1)]
      by (simp add: parse_magnitude_def)
  qed
qed

lemma parseInt_tail:
  assumes "t \<noteq> []" "\<not> is_space (hd t)" "r = [] \<or> is_space (hd r)"
  shows "parseInt (t @ r) = parseInt t"
proof -
  obtain c cs where t: "t = c # cs" using assms(1) by (cases t) auto
  with assms(2) have c: "\<not> is_space c" by simp
  have d: "dropWhile is_space (t @ r) = t @ r" "dropWhile is_space t = t" using t c by auto
  have s: "startsWith (t @ r) ''-'' = startsWith t ''-''"
    "startsWith (t @ r) ''+'' = startsWith t ''+''"
    using t by (auto simp: startsWith_def)
  have dr: "drop 1 (t @ r) = drop 1 t @ r" using t by simp
  show ?thesis
    unfolding parseInt_def Let_def d s dr
    by (simp add: parse_magnitude_tail [OF assms(3)])
qed

lemma space_piece_decomp:
  "\<exists>r. takeWhile (\<lambda>c. c \<noteq> CHR '' '') s = first_token s @ r \<and> (r = [] \<or> is_space (hd r))"
proof (induction s)
  case Nil
  then show ?case by (simp add: first_token_def)
next
  case (Cons c s)
  show ?case
  proof (cases "is_space c")
    case True
    then show ?thesis by (auto simp: first_token_def)
  next
    case False
    then have "c \<noteq> CHR '' ''" by (auto simp: is_space_def)
    with False Cons show ?thesis by (auto simp: first_token_def)
  qed
qed

lemma parseInt_first_token:
  assumes "s \<noteq> []" "\<not> is_space (hd s)"
  shows "parseInt (hd (split CHR '' '' s)) = parseInt (first_token s)"
proof -
  obtain r where r: "takeWhile (\<lambda>c. c \<noteq> CHR '' '') s = first_token s @ r"
    "r = [] \<or> is_space (hd r)"
    using space_piece_decomp by blast
  have ne: "first_token s \<noteq> []" "\<not> is_space (hd (first_token s))"
    using assms by (cases s; simp add: first_token_def)+
  show ?thesis unfolding hd_split r(1) by (rule parseInt_tail [OF ne r(2)])
qed

section \<open>Detection\<close>

lemma detect_subdomain_props:
  "detect_subdomain env domain sub w = (pushed, w') \<Longrightarrow>
   \<forall>d \<in> set pushed. imp_type d = TypeA \<and> imp_proxied d = Some False \<and> imp_priority d = None
      \<and> imp_name d = sub @ ''.'' @ domain"
  by (auto simp: detect_subdomain_def subdomain_descriptor_def Let_def
           split: prod.splits sum.splits if_splits option.splits)

lemma detect_subdomains_props:
  "detect_subdomains env domain subs acc w = (ds, w') \<Longrightarrow>
   \<exists>pushed. ds = acc @ pushed \<and>
     (\<forall>d \<in> set pushed. imp_type d = TypeA \<and> imp_proxied d = Some False \<and> imp_priority d = None
        \<and> (\<exists>sub \<in> set subs. imp_name d = sub @ ''.'' @ domain))"
proof (induction subs arbitrary: acc w)
  case Nil
  then show ?case by simp
next
  case (Cons sub subs)
  obtain p w1 where p: "detect_subdomain env domain sub w = (p, w1)"
    by (cases "detect_subdomain env domain sub w")
  with Cons.prems have "detect_subdomains env domain subs (acc @ p) w1 = (ds, w')" by simp
  from Cons.IH [OF this] obtain q where q: "ds = (acc @ p) @ q"
     "\<forall>d \<in> set q. imp_type d = TypeA \<and> imp_proxied d = Some False \<and> imp_priority d = None
        \<and> (\<exists>sub \<in> set subs. imp_name d = sub @ ''.'' @ domain)" by blast
  from detect_subdomain_props [OF p] q show ?case
    by (intro exI [of _ "p @ q"]) auto
qed

text \<open>
  C8. Every descriptor that the subdomain phase of detection adds to those of the base phase
  has type A (so never CNAME), \<open>proxied = false\<close>, no priority, and the name of one of the
  seven candidates \<open>www, mail, ftp, blog, shop, api, admin\<close> prefixed to the domain.
\<close>

theorem subdomain_phase_descriptors:
  assumes "detect_types env domain recordTypes [] w = (base, w1)"
    and "detect_subdomains env domain commonSubdomains base w1 = (ds, w2)"
  shows "detectDnsRecords env domain w = (Inr ds, w2) \<and>
         (\<exists>pushed. ds = base @ pushed \<and>
            (\<forall>d \<in> set pushed.
               imp_type d = TypeA \<and> imp_type d \<noteq> TypeCNAME \<and> imp_proxied d = Some False \<and>
               imp_priority d = None \<and>
               (\<exists>sub \<in> set [''www'', ''mail'', ''ftp'', ''blog'', ''shop'', ''api'', ''admin''].
                  imp_name d = sub @ ''.'' @ domain)))"
proof -
  have "detectDnsRecords env domain w = (Inr ds, w2)"
    using assms by (simp add: detectDnsRecords_def io_defs)
  moreover from detect_subdomains_props [OF assms(2)]
  obtain pushed where "ds = base @ pushed"
    "\<forall>d \<in> set pushed. imp_type d = TypeA \<and> imp_proxied d = Some False \<and> imp_priority d = None
        \<and> (\<exists>sub \<in> set commonSubdomains. imp_name d = sub @ ''.'' @ domain)"
    by blast
  ultimately show ?thesis
    unfolding commonSubdomains_def by (intro conjI exI [of _ pushed]) auto
qed

lemma www_only_base:
  "detect_types (stub_env www_only) ''example.com'' recordTypes [] 0 = ([], 8)"
  by (simp add: recordTypes_def detect_type_def resolve_def io_defs stub_env_def www_only_def)

lemma www_only_subdomains:
  "detect_subdomains (stub_env www_only) ''example.com'' commonSubdomains [] 8 =
     ([\<lparr>imp_type = TypeA, imp_name = ''www.example.com'', imp_content = ''93.184.216.34'',
        imp_ttl = Some 300, imp_priority = None, imp_proxied = Some False\<rparr>], 15)"
  by (simp add: commonSubdomains_def detect_subdomain_def resolve_def io_defs stub_env_def
        www_only_def answers_response_def subdomain_descriptor_def int_or_def)

theorem subdomain_phase_descriptors_witness:
  "detectDnsRecords (stub_env www_only) ''example.com'' 0 =
     (Inr [\<lparr>imp_type = TypeA, imp_name = ''www.example.com'', imp_content = ''93.184.216.34'',
            imp_ttl = Some 300, imp_priority = None, imp_proxied = Some False\<rparr>], 15)"
  using subdomain_phase_descriptors [OF www_only_base www_only_subdomains] by simp

lemma detect_type_answers:
  "detect_type env domain t w =
     (map (base_descriptor domain t) (map snd (matching_answers env domain [t] w)),
      snd (resolve env domain (type_name t) w))"
  by (auto simp: detect_type_def comp_def split: prod.splits sum.splits option.splits)

lemma matching_answers_Cons:
  "matching_answers env domain (t # ts) w =
     matching_answers env domain [t] w @
     matching_answers env domain ts (snd (resolve env domain (type_name t) w))"
  by (auto split: prod.splits sum.splits option.splits)

lemma matching_answers_type:
  assumes "(t', a) \<in> set (matching_answers env domain [t] w)"
  shows "t' = t"
proof -
  obtain r w' where rw: "resolve env domain (type_name t) w = (r, w')"
    by (cases "resolve env domain (type_name t) w")
  show ?thesis
  proof (cases r)
    case (Inl e)
    with rw assms show ?thesis by simp
  next
    case (Inr data)
    with rw assms show ?thesis
      by (cases "Answer data"; cases "Status data = 0") auto
  qed
qed

lemma base_descriptor_priority:
  "imp_priority (base_descriptor domain t a) =
     (if CHR '' '' \<in> set (ans_data a)
      then Some (parseInt (takeWhile (\<lambda>c. c \<noteq> CHR '' '') (ans_data a))) else None)"
  by (simp add: base_descriptor_def includes_char_def hd_split)

lemma detect_types_answers:
  "\<exists>pushed. fst (detect_types env domain ts acc w) = acc @ pushed \<and>
     list_all2
       (\<lambda>(t, a) d.
          imp_type d = t \<and> imp_name d = domain \<and> imp_content d = ans_data a \<and>
          imp_priority d =
            (if CHR '' '' \<in> set (ans_data a)
             then Some (parseInt (takeWhile (\<lambda>c. c \<noteq> CHR '' '') (ans_data a))) else None) \<and>
          (ans_data a \<noteq> [] \<and> \<not> is_space (hd (ans_data a)) \<longrightarrow>
             imp_priority d =
               (if CHR '' '' \<in> set (ans_data a)
                then Some (parseInt (first_token (ans_data a))) else None)))
       (matching_answers env domain ts w) pushed"
proof (induction ts arbitrary: acc w)
  case Nil
  show ?case by simp
next
  case (Cons t ts)
  let ?R = "\<lambda>(t, a) d.
          imp_type d = t \<and> imp_name d = domain \<and> imp_content d = ans_data a \<and>
          imp_priority d =
            (if CHR '' '' \<in> set (ans_data a)
             then Some (parseInt (takeWhile (\<lambda>c. c \<noteq> CHR '' '') (ans_data a))) else None) \<and>
          (ans_data a \<noteq> [] \<and> \<not> is_space (hd (ans_data a)) \<longrightarrow>
             imp_priority d =
               (if CHR '' '' \<in> set (ans_data a)
                then Some (parseInt (first_token (ans_data a))) else None))"
  let ?m = "matching_answers env domain [t] w"
  let ?p = "map (base_descriptor domain t) (map snd ?m)"
  let ?w = "snd (resolve env domain (type_name t) w)"
  have one: "?R (t', a) (base_descriptor domain t a)" if "(t', a) \<in> set ?m" for t' a
  proof -
    have "t' = t" using matching_answers_type [OF that] .
    moreover have "imp_priority (base_descriptor domain t a) =
               (if CHR '' '' \<in> set (ans_data a)
                then Some (parseInt (first_token (ans_data a))) else None)"
      if "ans_data a \<noteq> []" "\<not> is_space (hd (ans_data a))"
      using parseInt_first_token [OF that] by (simp add: base_descriptor_priority hd_split)
    moreover have "imp_type (base_descriptor domain t a) = t"
      "imp_name (base_descriptor domain t a) = domain"
      "imp_content (base_descriptor domain t a) = ans_data a"
      by (simp_all add: base_descriptor_def)
    ultimately show ?thesis
      by (simp add: base_descriptor_priority del: matching_answers.simps)
  qed
  have "?R x (base_descriptor domain t (snd x))" if "x \<in> set ?m" for x
    using one [of "fst x" "snd x"] that by (simp del: matching_answers.simps)
  then have first: "list_all2 ?R ?m ?p"
    unfolding list_all2_map2 list_all2_same by blast
  from Cons.IH [of "acc @ ?p" ?w] obtain q where
    q: "fst (detect_types env domain ts (acc @ ?p) ?w) = (acc @ ?p) @ q"
       "list_all2 ?R (matching_answers env domain ts ?w) q" by blast
  have "fst (detect_types env domain (t # ts) acc w) = acc @ (?p @ q)"
    using q(1) by (simp add: detect_type_answers)
  moreover have "list_all2 ?R (matching_answers env domain (t # ts) w) (?p @ q)"
    unfolding matching_answers_Cons [of env domain t ts w]
    by (rule list_all2_appendI [OF first q(2)])
  ultimately show ?case by blast
qed

text \<open>
  C4, as amended. The descriptors of the base-domain phase are, one for one and in order,
  the answers whose type code is that of the queried type. Whatever type was queried, the
  descriptor of such an answer has that type, the domain as its name, the answer's data as
  its content, and a priority decided by the data alone: with a space character in it,
  \<open>parseInt\<close> of what precedes the first space, and without one no priority. For data that
  does not begin with white space, that number is \<open>parseInt\<close> of the first
  white-space-delimited token.
\<close>

theorem base_phase_answers:
  "list_all2
     (\<lambda>(t, a) d.
        imp_type d = t \<and> imp_name d = domain \<and> imp_content d = ans_data a \<and>
        imp_priority d =
          (if CHR '' '' \<in> set (ans_data a)
           then Some (parseInt (takeWhile (\<lambda>c. c \<noteq> CHR '' '') (ans_data a))) else None) \<and>
        (ans_data a \<noteq> [] \<and> \<not> is_space (hd (ans_data a)) \<longrightarrow>
           imp_priority d =
             (if CHR '' '' \<in> set (ans_data a)
              then Some (parseInt (first_token (ans_data a))) else None)))
     (matching_answers env domain recordTypes w)
     (fst (detect_types env domain recordTypes [] w))"
  using detect_types_answers [of env domain recordTypes "[]" w] by auto

lemma apex_base:
  "detect_types (stub_env apex_records) ''example.com'' recordTypes [] 0 =
     ([\<lparr>imp_type = TypeA, imp_name = ''example.com'', imp_content = ''93.184.216.34'',
        imp_ttl = Some 60, imp_priority = None, imp_proxied = Some False\<rparr>,
       \<lparr>imp_type = TypeMX, imp_name = ''example.com'', imp_content = ''10 mail.example.com.'',
        imp_ttl = Some 60, imp_priority = Some (Num 10), imp_proxied = Some False\<rparr>,
       \<lparr>imp_type = TypeTXT, imp_name = ''example.com'', imp_content = ''v=spf1 -all'',
        imp_ttl = Some 60, imp_priority = Some NaN, imp_proxied = Some False\<rparr>,
       \<lparr>imp_type = TypeTXT, imp_name = ''example.com'', imp_content = ''5 abc'',
        imp_ttl = Some 300, imp_priority = Some (Num 5), imp_proxied = Some False\<rparr>], 8)"
  apply (simp add: recordTypes_def detect_type_def resolve_def io_defs stub_env_def
           apex_records_def answers_response_def base_descriptor_def int_or_def
           getDnsTypeNumber_def includes_char_def)
  apply (simp add: parseInt_def parse_magnitude_def startsWith_def is_space_def is_digit_def
           digits_value_def digit_val_def to_double_def)
  done



text \<open>The witness: an address, a mail exchanger and two text answers; the text answer
  \<open>5 abc\<close> gets the priority 5 and \<open>v=spf1 -all\<close> gets \<open>NaN\<close>.\<close>

lemma apex_answers:
  "matching_answers (stub_env apex_records) ''example.com'' recordTypes 0 =
     [(TypeA, \<lparr>ans_type = 1, ans_data = ''93.184.216.34'', ans_TTL = Some 60\<rparr>),
      (TypeMX, \<lparr>ans_type = 15, ans_data = ''10 mail.example.com.'', ans_TTL = Some 60\<rparr>),
      (TypeTXT, \<lparr>ans_type = 16, ans_data = ''v=spf1 -all'', ans_TTL = Some 60\<rparr>),
      (TypeTXT, \<lparr>ans_type = 16, ans_data = ''5 abc'', ans_TTL = Some 0\<rparr>)]"
  by (simp add: recordTypes_def resolve_def io_defs stub_env_def apex_records_def
        answers_response_def getDnsTypeNumber_def int_or_def)

theorem base_phase_answers_witness:
  "list_all2
     (\<lambda>(t, a) d.
        imp_type d = t \<and> imp_name d = ''example.com'' \<and> imp_content d = ans_data a \<and>
        imp_priority d =
          (if CHR '' '' \<in> set (ans_data a)
           then Some (parseInt (takeWhile (\<lambda>c. c \<noteq> CHR '' '') (ans_data a))) else None) \<and>
        (ans_data a \<noteq> [] \<and> \<not> is_space (hd (ans_data a)) \<longrightarrow>
           imp_priority d =
             (if CHR '' '' \<in> set (ans_data a)
              then Some (parseInt (first_token (ans_data a))) else None)))
     [(TypeA, \<lparr>ans_type = 1, ans_data = ''93.184.216.34'', ans_TTL = Some 60\<rparr>),
      (TypeMX, \<lparr>ans_type = 15, ans_data = ''10 mail.example.com.'', ans_TTL = Some 60\<rparr>),
      (TypeTXT, \<lparr>ans_type = 16, ans_data = ''v=spf1 -all'', ans_TTL = Some 60\<rparr>),
      (TypeTXT, \<lparr>ans_type = 16, ans_data = ''5 abc'', ans_TTL = Some 0\<rparr>)]
     [\<lparr>imp_type = TypeA, imp_name = ''example.com'', imp_content = ''93.184.216.34'',
        imp_ttl = Some 60, imp_priority = None, imp_proxied = Some False\<rparr>,
       \<lparr>imp_type = TypeMX, imp_name = ''example.com'', imp_content = ''10 mail.example.com.'',
        imp_ttl = Some 60, imp_priority = Some (Num 10), imp_proxied = Some False\<rparr>,
       \<lparr>imp_type = TypeTXT, imp_name = ''example.com'', imp_content = ''v=spf1 -all'',
        imp_ttl = Some 60, imp_priority = Some NaN, imp_proxied = Some False\<rparr>,
       \<lparr>imp_type = TypeTXT, imp_name = ''example.com'', imp_content = ''5 abc'',
        imp_ttl = Some 300, imp_priority = Some (Num 5), imp_proxied = Some False\<rparr>]"
  using base_phase_answers [of "''example.com''" "stub_env apex_records" 0]
  unfolding apex_answers apex_base fst_conv .

text \<open>The claim as stated fails on data that begins with white space. For the data
  that is a tab followed by \<open>7 x\<close> the priority is 7, while the piece before the first
  white space is empty and parses to \<open>NaN\<close>; for the data that is a space followed by
  \<open>7 x\<close> the priority is \<open>NaN\<close>, while the first non-empty token is \<open>7\<close>.\<close>

lemma odd_base:
  "detect_types (stub_env odd_answers) ''example.com'' recordTypes [] 0 =
     ([\<lparr>imp_type = TypeMX, imp_name = ''example.com'', imp_content = CHR 0x09 # ''7 x'',
        imp_ttl = Some 60, imp_priority = Some (Num 7), imp_proxied = Some False\<rparr>,
       \<lparr>imp_type = TypeMX, imp_name = ''example.com'', imp_content = '' 7 x'',
        imp_ttl = Some 60, imp_priority = Some NaN, imp_proxied = Some False\<rparr>], 8)"
  apply (simp add: recordTypes_def detect_type_def resolve_def io_defs stub_env_def
           odd_answers_def answers_response_def base_descriptor_def int_or_def
           getDnsTypeNumber_def includes_char_def)
  apply (simp add: parseInt_def parse_magnitude_def startsWith_def is_space_def is_digit_def
           digits_value_def digit_val_def to_double_def)
  done

theorem base_phase_priority_counterexample:
  "fst (detect_types (stub_env odd_answers) ''example.com'' recordTypes [] 0) =
     [\<lparr>imp_type = TypeMX, imp_name = ''example.com'', imp_content = CHR 0x09 # ''7 x'',
       imp_ttl = Some 60, imp_priority = Some (Num 7), imp_proxied = Some False\<rparr>,
      \<lparr>imp_type = TypeMX, imp_name = ''example.com'', imp_content = '' 7 x'',
       imp_ttl = Some 60, imp_priority = Some NaN, imp_proxied = Some False\<rparr>] \<and>
   parseInt (first_token (CHR 0x09 # ''7 x'')) = NaN \<and>
   parseInt (hd (tokens '' 7 x'')) = Num 7"
proof -
  have "parseInt (first_token (CHR 0x09 # ''7 x'')) = NaN" by code_simp
  moreover have "parseInt (hd (tokens '' 7 x'')) = Num 7" by code_simp
  ultimately show ?thesis by (simp add: odd_base)
qed

section \<open>Propagation check\<close>

lemma every_includes:
  "list_all (\<lambda>ns. g ns \<in> set (map f (filter P xs))) es =
     (\<forall>ns \<in> set es. \<exists>a \<in> set xs. P a \<and> f a = g ns)"
  unfolding list_all_iff by (rule ball_cong [OF refl]) (auto simp: image_iff)

lemma checkNameserverPropagation_value:
  "checkNameserverPropagation env domain expectedNameservers w =
     (case resolve env domain ''NS'' w of
        (Inl e, w1) \<Rightarrow> (Inr False, w1)
      | (Inr data, w1) \<Rightarrow>
          (Inr (Status data = 0 \<and>
                (case Answer data of
                   None \<Rightarrow> False
                 | Some answers \<Rightarrow>
                     (\<forall>ns \<in> set expectedNameservers.
                        \<exists>a \<in> set answers. ans_type a = 2 \<and> toLowerCase (ans_data a) = toLowerCase ns))), w1))"
  unfolding checkNameserverPropagation_def Let_def every_includes
  by (simp add: io_defs split: prod.splits sum.splits option.splits)

text \<open>
  C7. \<open>checkNameserverPropagation\<close> always returns a boolean and never throws. It returns
  true exactly when the NS lookup gives a payload with status 0 and an answer list such that
  every expected name server equals, after lower-casing both sides, the data of some answer
  of type code 2.
\<close>

theorem nameserver_propagation:
  "\<exists>b w'. checkNameserverPropagation env domain expectedNameservers w = (Inr b, w') \<and>
     (b \<longleftrightarrow>
        (\<exists>data w1 answers.
           resolve env domain ''NS'' w = (Inr data, w1) \<and> Status data = 0 \<and>
           Answer data = Some answers \<and>
           (\<forall>ns \<in> set expectedNameservers.
              \<exists>a \<in> set answers. ans_type a = 2 \<and> toLowerCase (ans_data a) = toLowerCase ns)))"
proof (cases "resolve env domain ''NS'' w")
  case (Pair r w1)
  show ?thesis
  proof (cases r)
    case (Inl e)
    with Pair show ?thesis
      unfolding checkNameserverPropagation_value by (intro exI [of _ False] exI [of _ w1]) simp
  next
    case (Inr data)
    show ?thesis
    proof (cases "Answer data")
      case None
      with Pair Inr show ?thesis
        unfolding checkNameserverPropagation_value by (intro exI [of _ False] exI [of _ w1]) simp
    next
      case (Some answers)
      with Pair Inr show ?thesis
        unfolding checkNameserverPropagation_value
        by (intro exI [of _ "Status data = 0 \<and> (\<forall>ns \<in> set expectedNameservers.
              \<exists>a \<in> set answers. ans_type a = 2 \<and> toLowerCase (ans_data a) = toLowerCase ns)"]
              exI [of _ w1]) simp
    qed
  qed
qed

lemma ns_resolve:
  "resolve (stub_env ns_records) ''example.com'' ''NS'' 0 =
     (Inr \<lparr>Status = 0, Answer = Some
                   [\<lparr>ans_type = 2, ans_data = ''NS1.X.COM'', ans_TTL = Some 60\<rparr>,
                    \<lparr>ans_type = 2, ans_data = ''ns2.x.com'', ans_TTL = Some 60\<rparr>,
                    \<lparr>ans_type = 2, ans_data = ''ns3.x.com'', ans_TTL = Some 60\<rparr>]\<rparr>, 1)"
  by (simp add: resolve_def io_defs stub_env_def ns_records_def answers_response_def)

lemma lower_examples:
  "toLowerCase ''NS1.X.COM'' = ''ns1.x.com''" "toLowerCase ''ns1.x.com'' = ''ns1.x.com''"
  "toLowerCase ''Ns2.x.com'' = ''ns2.x.com''" "toLowerCase ''ns2.x.com'' = ''ns2.x.com''"
  by code_simp+

theorem nameserver_propagation_witness:
  "\<exists>w'. checkNameserverPropagation (stub_env ns_records) ''example.com''
           [''ns1.x.com'', ''Ns2.x.com''] 0 = (Inr True, w')"
proof -
  from nameserver_propagation [of "stub_env ns_records" "''example.com''"
      "[''ns1.x.com'', ''Ns2.x.com'']" 0]
  obtain b w' where r: "checkNameserverPropagation (stub_env ns_records) ''example.com''
           [''ns1.x.com'', ''Ns2.x.com''] 0 = (Inr b, w')"
    and b: "b \<longleftrightarrow>
        (\<exists>data w1 answers.
           resolve (stub_env ns_records) ''example.com'' ''NS'' 0 = (Inr data, w1) \<and> Status data = 0 \<and>
           Answer data = Some answers \<and>
           (\<forall>ns \<in> set [''ns1.x.com'', ''Ns2.x.com''].
              \<exists>a \<in> set answers. ans_type a = 2 \<and> toLowerCase (ans_data a) = toLowerCase ns))"
    by blast
  have b by (simp add: b ns_resolve lower_examples)
  with r show ?thesis by auto
qed

section \<open>Replication\<close>

text \<open>
  C5. When detection returns no descriptor, \<open>replicateDnsRecords\<close> returns (it does not
  throw) empty \<open>detected\<close> and \<open>replicated\<close> and the one message
  \<open>No DNS records detected for the domain\<close>; the world it leaves is the one detection
  left, so no request went to the provider.
\<close>

theorem replicate_nothing_detected:
  assumes "detectDnsRecords env sourceDomain w = (Inr [], w')"
  shows "replicateDnsRecords env cfg sourceDomain targetZoneId w =
           (Inr \<lparr>detected = [], replicated = [],
                 errors = [''No DNS records detected for the domain'']\<rparr>, w')"
  using assms by (simp add: replicateDnsRecords_def replicateDnsRecords_via_def io_defs)

lemma silent_detect:
  "detectDnsRecords (stub_env silent) ''example.com'' 0 = (Inr [], 15)"
  by (simp add: detectDnsRecords_def recordTypes_def commonSubdomains_def detect_type_def
        detect_subdomain_def resolve_def io_defs stub_env_def silent_def)

theorem replicate_nothing_detected_witness:
  "replicateDnsRecords (stub_env silent) test_config ''example.com'' (Some ''Z1'') 0 =
     (Inr \<lparr>detected = [], replicated = [],
           errors = [''No DNS records detected for the domain'']\<rparr>, 15)"
  by (rule replicate_nothing_detected [OF silent_detect])

lemma replicateDnsRecords_via_returns:
  "\<exists>r w'. replicateDnsRecords_via detect import sourceDomain targetZoneId w = (Inr r, w') \<and>
      (\<forall>e w1. detect sourceDomain w = (Inl e, w1) \<longrightarrow>
         r = \<lparr>detected = [], replicated = [],
              errors = [''Failed to replicate DNS records: '' @ error_message e]\<rparr> \<and> w' = w1)"
  by (auto simp: replicateDnsRecords_via_def io_defs split: prod.splits sum.splits)

lemma replicateDnsRecords_returns:
  "\<exists>r w'. replicateDnsRecords env cfg sourceDomain targetZoneId w = (Inr r, w')"
  using replicateDnsRecords_via_returns [of "detectDnsRecords env" "importDnsRecords env cfg"]
  unfolding replicateDnsRecords_def by blast

text \<open>
  C10. \<open>replicateDnsRecords\<close> returns a result in every world and for every input; and
  whatever detection and import functions its body is run with, it returns, and if detection
  throws \<open>e\<close> the result has empty \<open>detected\<close> and \<open>replicated\<close> and the single error
  \<open>Failed to replicate DNS records:\<close> followed by the message of \<open>e\<close>.
\<close>

theorem replicate_never_throws:
  "(\<exists>r w'. replicateDnsRecords env cfg sourceDomain targetZoneId w = (Inr r, w')) \<and>
   (\<exists>r w'. replicateDnsRecords_via detect import sourceDomain targetZoneId w = (Inr r, w') \<and>
      (\<forall>e w1. detect sourceDomain w = (Inl e, w1) \<longrightarrow>
         r = \<lparr>detected = [], replicated = [],
              errors = [''Failed to replicate DNS records: '' @ error_message e]\<rparr> \<and> w' = w1))"
  by (rule conjI [OF replicateDnsRecords_returns replicateDnsRecords_via_returns])

theorem replicate_never_throws_witness:
  "\<exists>w'. replicateDnsRecords_via (\<lambda>d. throw (Error ''RangeError'' ''boom''))
      (importDnsRecords (stub_env silent) test_config) ''example.com'' None (0::nat) =
     (Inr \<lparr>detected = [], replicated = [],
           errors = [''Failed to replicate DNS records: boom'']\<rparr>, w')"
  using replicate_never_throws [of "stub_env silent" test_config "''example.com''" None 0
      "\<lambda>d. throw (Error ''RangeError'' ''boom'')"
      "importDnsRecords (stub_env silent) test_config", THEN conjunct2]
  by (auto simp: throw_def error_message_def)


section \<open>Migration\<close>






text \<open>With the schemas of \<open>types.ts\<close> the zone parser rejects whatever the envelope lets
  through, so \<open>createZone\<close> never returns and every migration ends in the placeholder
  result.\<close>

lemma zone_result_rejected:
  assumes "\<forall>r. \<exists>e. CloudflareZone_parse env r = Inl e"
  shows "\<exists>e. (case resp_result data of
                 Single r \<Rightarrow> lift (CloudflareZone_parse env r)
               | NoResult \<Rightarrow> throw (new_Error m)
               | Multiple rs \<Rightarrow> throw (new_Error m)) w = (Inl e, w)"
proof (cases "resp_result data")
  case (Single r)
  from assms obtain e where "CloudflareZone_parse env r = Inl e" by blast
  with Single show ?thesis by (simp add: lift_def)
qed (simp_all add: throw_def)

lemma createZone_never_returns:
  assumes "\<forall>r. \<exists>e. CloudflareZone_parse env r = Inl e"
  shows "\<exists>e w'. createZone env cfg zoneData w = (Inl e, w')"
proof (cases "CreateZoneRequest_parse env zoneData")
  case (Inl e)
  then show ?thesis by (simp add: createZone_def io_defs)
next
  case v: (Inr validatedZone)
  obtain a w1 where a: "api env cfg ''zones'' ''POST'' (Some (ZoneBody validatedZone)) False w = (a, w1)"
    by (cases "api env cfg ''zones'' ''POST'' (Some (ZoneBody validatedZone)) False w")
  show ?thesis
  proof (cases a)
    case (Inl e)
    with a v show ?thesis by (simp add: createZone_def io_defs)
  next
    case (Inr response)
    show ?thesis
    proof (cases "json response")
      case (Inl e)
      with a Inr v show ?thesis by (simp add: createZone_def io_defs)
    next
      case raw: (Inr rawData)
      show ?thesis
      proof (cases "CloudflareApiResponse_parse env rawData")
        case (Inl e)
        with a Inr raw v show ?thesis by (simp add: createZone_def io_defs)
      next
        case data: (Inr data)
        from zone_result_rejected
               [OF assms, where data = data and m = "''Failed to create zone''" and w = w1]
        obtain e where "(case resp_result data of
                 Single r \<Rightarrow> lift (CloudflareZone_parse env r)
               | NoResult \<Rightarrow> throw (new_Error ''Failed to create zone'')
               | Multiple rs \<Rightarrow> throw (new_Error ''Failed to create zone'')) w1 = (Inl e, w1)"
          by blast
        with a Inr raw data v show ?thesis
          by (cases "resp_success data") (simp_all add: createZone_def io_defs)
      qed
    qed
  qed
qed

lemma migration_always_placeholder:
  assumes "\<forall>r. \<exists>e. CloudflareZone_parse env r = Inl e"
  shows "\<exists>m w'. migrateDomainWithDetection env cfg domain zoneType w =
           (Inr \<lparr>detected = [], replicated = [], errors = [''Migration failed: '' @ m],
                 zone = None, nextSteps = [''Fix the errors and retry the migration'']\<rparr>, w')"
proof -
  from createZone_never_returns [OF assms]
  obtain e w' where "createZone env cfg
                \<lparr>cz_name = domain,
                 cz_type = (case zoneType of None \<Rightarrow> ''full'' | Some t \<Rightarrow> if t = [] then ''full'' else t),
                 cz_jump_start = False\<rparr> w = (Inl e, w')" by blast
  then show ?thesis by (simp add: migrateDomainWithDetection_def io_defs)
qed

section \<open>Validation\<close>

lemma getZone_never_returns:
  assumes "\<forall>r. \<exists>e. CloudflareZone_parse env r = Inl e"
  shows "\<exists>e w'. getZone env cfg z w = (Inl e, w')"
proof (cases "zone_or_default cfg z = []")
  case True
  then show ?thesis by (simp add: getZone_def io_defs)
next
  case False
  obtain a w1 where a: "api env cfg (''zones/'' @ zone_or_default cfg z) ''GET'' None False w = (a, w1)"
    by (cases "api env cfg (''zones/'' @ zone_or_default cfg z) ''GET'' None False w")
  show ?thesis
  proof (cases a)
    case (Inl e)
    with a False show ?thesis by (simp add: getZone_def io_defs)
  next
    case (Inr response)
    show ?thesis
    proof (cases "json response")
      case (Inl e)
      with a Inr False show ?thesis by (simp add: getZone_def io_defs)
    next
      case raw: (Inr rawData)
      show ?thesis
      proof (cases "CloudflareApiResponse_parse env rawData")
        case (Inl e)
        with a Inr raw False show ?thesis by (simp add: getZone_def io_defs)
      next
        case data: (Inr data)
        from zone_result_rejected [OF assms, where data = data and m = "''Zone not found''" and w = w1]
        obtain e where "(case resp_result data of
                 Single r \<Rightarrow> lift (CloudflareZone_parse env r)
               | NoResult \<Rightarrow> throw (new_Error ''Zone not found'')
               | Multiple rs \<Rightarrow> throw (new_Error ''Zone not found'')) w1 = (Inl e, w1)" by blast
        with a Inr raw data False show ?thesis
          by (cases "resp_success data") (simp_all add: getZone_def io_defs)
      qed
    qed
  qed
qed

lemma validateZoneSetup_value:
  "validateZoneSetup env cfg zid w =
     (case getZone env cfg (Some zid) w of
        (Inl e, w1) \<Rightarrow>
          (Inr \<lparr>valid = False, issues = [''Failed to validate zone: '' @ error_message e]\<rparr>, w1)
      | (Inr z, w1) \<Rightarrow>
          (case listDnsRecords env cfg w1 of
             (Inl e, w2) \<Rightarrow>
               (Inr \<lparr>valid = False,
                     issues =
                       (if zone_status z \<noteq> Active
                        then [''Zone status is '' @ status_name (zone_status z) @ '', should be active'']
                        else []) @
                       (if zone_name_servers z = [] then [''No nameservers found for zone''] else []) @
                       [''Failed to validate zone: '' @ error_message e]\<rparr>, w2)
           | (Inr rs, w2) \<Rightarrow>
               (Inr \<lparr>valid = (zone_status z = Active \<and> zone_name_servers z \<noteq> [] \<and> rs \<noteq> []),
                     issues =
                       (if zone_status z \<noteq> Active
                        then [''Zone status is '' @ status_name (zone_status z) @ '', should be active'']
                        else []) @
                       (if zone_name_servers z = [] then [''No nameservers found for zone''] else []) @
                       (if rs = [] then [''No DNS records found in zone''] else [])\<rparr>, w2)))"
  by (auto simp: validateZoneSetup_def Let_def split: prod.splits sum.splits)

text \<open>
  C3, on the code. \<open>getZone\<close> parses the provider's answer with the envelope schema, whose
  result is a DNS record, and then with the zone schema; no value passes both, so \<open>getZone\<close>
  always throws. For every zone id, whatever the zone's status, name servers and records,
  \<open>validateZoneSetup\<close> therefore returns \<open>valid = false\<close> with exactly one issue, the failure
  to validate, and none of the three checks is made.
\<close>

theorem validateZoneSetup_single_issue:
  assumes "\<forall>r. \<exists>e. CloudflareZone_parse env r = Inl e"
  shows "\<exists>m w'. validateZoneSetup env cfg zid w =
           (Inr \<lparr>valid = False, issues = [''Failed to validate zone: '' @ m]\<rparr>, w')"
proof -
  from getZone_never_returns [OF assms, of cfg "Some zid" w]
  obtain e w' where "getZone env cfg (Some zid) w = (Inl e, w')" by blast
  then show ?thesis by (simp add: validateZoneSetup_value)
qed

text \<open>The witness: a pending zone with two name servers and no record; one issue, where two
  are expected.\<close>

lemma stub_rejects_zones: "\<forall>r. \<exists>e. CloudflareZone_parse (stub_env table) r = Inl e"
  by (simp add: stub_env_def CloudflareZone_schema_def)

lemma pending_zone_listed:
  "listDnsRecords (stub_env pending_zone) zone_config n = (Inr [], Suc n)"
  by (simp add: listDnsRecords_def api_def getHeaders_def io_defs stub_env_def
        pending_zone_def zone_config_def ok_response_def)

lemma pending_zone_got:
  "getZone (stub_env pending_zone) zone_config (Some ''Z1'') 0 =
     (Inl (Error ''Error'' ''Failed to parse zone response: Invalid input''), 1)"
  by (simp add: getZone_def zone_or_default_def api_def getHeaders_def io_defs stub_env_def
        pending_zone_def zone_config_def zone_response_def new_Error_def error_message_def)

theorem validateZoneSetup_single_issue_witness:
  "validateZoneSetup (stub_env pending_zone) zone_config ''Z1'' 0 =
     (Inr \<lparr>valid = False,
           issues = [''Failed to validate zone: Failed to parse zone response: Invalid input'']\<rparr>,
      1)"
proof -
  from validateZoneSetup_single_issue [OF stub_rejects_zones, of pending_zone zone_config "''Z1''" 0]
  obtain m w' where r: "validateZoneSetup (stub_env pending_zone) zone_config ''Z1'' 0 =
           (Inr \<lparr>valid = False, issues = [''Failed to validate zone: '' @ m]\<rparr>, w')" by blast
  have "validateZoneSetup (stub_env pending_zone) zone_config ''Z1'' 0 =
          (Inr \<lparr>valid = False,
                issues = [''Failed to validate zone: '' @
                            ''Failed to parse zone response: Invalid input'']\<rparr>, 1)"
    by (simp add: validateZoneSetup_value pending_zone_got error_message_def)
  with r show ?thesis by simp
qed

section \<open>Zone-file import\<close>

lemma split_ws_first: "split_ws s ! 0 = takeWhile (\<lambda>c. \<not> is_space c) s"
  by (subst split_ws.simps) (simp add: Let_def)

lemma parse_line_no_origin:
  assumes "\<not> startsWith (trim l) ''$ORIGIN''"
  shows "parse_line d orig l = Inr Skip \<or> (\<exists>t. parse_line d orig l = Inr (SetTtl t)) \<or>
         (\<exists>r. parse_line d orig l = Inr (Push r))"
  using assms by (auto simp: parse_line_def Let_def split: option.splits list.splits)

lemma parse_line_total:
  assumes "startsWith (trim l) ''$ORIGIN'' \<longrightarrow> 2 \<le> length (split_ws (trim l))"
  shows "\<exists>x. parse_line d orig l = Inr x"
proof -
  have "drop 1 (split_ws (trim l)) \<noteq> []" if "startsWith (trim l) ''$ORIGIN''"
    using assms that by simp
  then show ?thesis
    by (auto simp: parse_line_def Let_def split: option.splits list.splits)
qed

lemma parse_lines_prefix:
  assumes "\<forall>l \<in> set before. \<not> startsWith (trim l) ''$ORIGIN''"
  shows "\<exists>d' recs. parse_lines d orig acc before = Inr (acc @ recs) \<and>
           (\<forall>rest. parse_lines d orig acc (before @ rest) = parse_lines d' orig (acc @ recs) rest)"
  using assms
proof (induction before arbitrary: d acc)
  case Nil
  show ?case by (intro exI [of _ d] exI [of _ "[]"]) simp
next
  case (Cons l ls)
  then have no: "\<not> startsWith (trim l) ''$ORIGIN''" and
    rest: "\<forall>l \<in> set ls. \<not> startsWith (trim l) ''$ORIGIN''" by simp_all
  from parse_line_no_origin [OF no, of d orig]
  consider "parse_line d orig l = Inr Skip" | t where "parse_line d orig l = Inr (SetTtl t)"
    | r where "parse_line d orig l = Inr (Push r)" by blast
  then show ?case
  proof cases
    case 1
    from Cons.IH [OF rest, of d acc] 1 show ?thesis by simp
  next
    case 2
    from Cons.IH [OF rest, of t acc] 2 show ?thesis by simp
  next
    case 3
    from Cons.IH [OF rest, of d "acc @ [r]"] obtain d' recs where
      "parse_lines d orig (acc @ [r]) ls = Inr ((acc @ [r]) @ recs)"
      "\<forall>rest. parse_lines d orig (acc @ [r]) (ls @ rest) = parse_lines d' orig ((acc @ [r]) @ recs) rest"
      by blast
    with 3 show ?thesis by (intro exI [of _ d'] exI [of _ "r # recs"]) simp
  qed
qed

lemma parse_lines_total:
  assumes "\<forall>l \<in> set ls. startsWith (trim l) ''$ORIGIN'' \<longrightarrow> 2 \<le> length (split_ws (trim l))"
  shows "\<exists>recs. parse_lines d orig acc ls = Inr (acc @ recs)"
  using assms
proof (induction ls arbitrary: d orig acc)
  case Nil
  show ?case by simp
next
  case (Cons l ls)
  then have ok: "startsWith (trim l) ''$ORIGIN'' \<longrightarrow> 2 \<le> length (split_ws (trim l))" and
    rest: "\<forall>l \<in> set ls. startsWith (trim l) ''$ORIGIN'' \<longrightarrow> 2 \<le> length (split_ws (trim l))"
    by simp_all
  from parse_line_total [OF ok, of d orig] obtain x where x: "parse_line d orig l = Inr x" by blast
  show ?case
  proof (cases x)
    case Skip
    with x Cons.IH [OF rest, of d orig acc] show ?thesis by simp
  next
    case (SetTtl t)
    with x Cons.IH [OF rest, of t orig acc] show ?thesis by simp
  next
    case (SetOrigin n)
    with x Cons.IH [OF rest, of d n acc] show ?thesis by simp
  next
    case (Push r)
    from Cons.IH [OF rest, of d orig "acc @ [r]"] obtain recs where
      "parse_lines d orig (acc @ [r]) ls = Inr ((acc @ [r]) @ recs)" by blast
    with x Push show ?thesis by (intro exI [of _ "r # recs"]) simp
  qed
qed

lemma at_line_starts:
  assumes "split_ws s ! 0 = ''@''"
  shows "s \<noteq> [] \<and> \<not> startsWith s '';'' \<and> \<not> startsWith s ''$TTL'' \<and> \<not> startsWith s ''$ORIGIN''"
proof -
  from assms have t: "takeWhile (\<lambda>c. \<not> is_space c) s = ''@''" by (simp add: split_ws_first)
  then obtain cs where "s = CHR ''@'' # cs"
    by (cases s) (auto split: if_splits)
  then show ?thesis by (simp add: startsWith_def)
qed

lemma parse_line_at:
  assumes "split_ws (trim line) ! 0 = ''@''" and "4 \<le> length (split_ws (trim line))"
    and "zone_file_type (split_ws (trim line) ! 3) = Some t"
  shows "\<exists>r. parse_line d [] line = Inr (Push r) \<and> new_name r = [] \<and> new_type r = t \<and>
              new_content r = join '' '' (drop 4 (split_ws (trim line)))"
  using assms at_line_starts [OF assms(1)]
  by (simp add: parse_line_def Let_def endsWith_def)

text \<open>
  C9. Take a zone file and one of its lines whose first field is \<open>@\<close>, with at least four
  fields and a record type the parser accepts, such that no line before it begins with
  \<open>$ORIGIN\<close>. If the lines after it do not make the parser throw (each \<open>$ORIGIN\<close> among
  them has an argument), \<open>parseZoneFile\<close> returns the records of the lines before, then a
  record for that line whose name is the empty string, then the records of the lines after:
  an \<open>$ORIGIN\<close> that comes later changes nothing in it.
\<close>

theorem at_before_origin_is_empty:
  assumes "split CHR 0x0A content = before @ line # after"
    and "\<forall>l \<in> set before. \<not> startsWith (trim l) ''$ORIGIN''"
    and "split_ws (trim line) ! 0 = ''@''"
    and "4 \<le> length (split_ws (trim line))"
    and "zone_file_type (split_ws (trim line) ! 3) = Some t"
    and "\<forall>l \<in> set after. startsWith (trim l) ''$ORIGIN'' \<longrightarrow> 2 \<le> length (split_ws (trim l))"
  shows "\<exists>recs1 r recs2.
           parse_lines 300 [] [] before = Inr recs1 \<and>
           parseZoneFile content = Inr (recs1 @ r # recs2) \<and>
           new_name r = [] \<and> new_type r = t \<and>
           new_content r = join '' '' (drop 4 (split_ws (trim line)))"
proof -
  from parse_lines_prefix [OF assms(2), of 300 "[]" "[]"] obtain d' recs1 where
    p: "parse_lines 300 [] [] before = Inr recs1"
       "\<forall>rest. parse_lines 300 [] [] (before @ rest) = parse_lines d' [] recs1 rest"
    by auto
  from parse_line_at [OF assms(3,4,5), of d'] obtain r where
    r: "parse_line d' [] line = Inr (Push r)" "new_name r = []" "new_type r = t"
       "new_content r = join '' '' (drop 4 (split_ws (trim line)))" by blast
  from parse_lines_total [OF assms(6), of d' "[]" "recs1 @ [r]"] obtain recs2 where
    a: "parse_lines d' [] (recs1 @ [r]) after = Inr ((recs1 @ [r]) @ recs2)" by blast
  have "parseZoneFile content = Inr (recs1 @ r # recs2)"
    unfolding parseZoneFile_def assms(1) using p(2) r(1) a by simp
  with p(1) r show ?thesis by blast
qed


lemma early_at_file_lines:
  "split CHR 0x0A early_at_file =
     [''; zone''] @ ''@ 300 IN A 1.2.3.4'' # [''$ORIGIN example.com.'', ''@ 600 IN A 5.6.7.8'']"
  by (simp add: early_at_file_def)

lemma early_at_file_parsed:
  "parseZoneFile early_at_file =
     Inr [\<lparr>new_type = TypeA, new_name = [], new_content = ''1.2.3.4'', new_ttl = 300,
           new_priority = None, new_proxied = Some False\<rparr>,
          \<lparr>new_type = TypeA, new_name = ''example.com'', new_content = ''5.6.7.8'', new_ttl = 600,
           new_priority = None, new_proxied = Some False\<rparr>]"
  by code_simp

theorem at_before_origin_is_empty_witness:
  "\<exists>recs1 r recs2.
     parse_lines 300 [] [] [''; zone''] = Inr recs1 \<and>
     parseZoneFile early_at_file = Inr (recs1 @ r # recs2) \<and>
     new_name r = [] \<and> new_type r = TypeA \<and> new_content r = ''1.2.3.4''"
proof -
  have h2: "\<forall>l \<in> set [''; zone'']. \<not> startsWith (trim l) ''$ORIGIN''"
    by (simp add: startsWith_def trim_def is_space_def)
  have h3: "split_ws (trim ''@ 300 IN A 1.2.3.4'') ! 0 = ''@''" by code_simp
  have h4: "4 \<le> length (split_ws (trim ''@ 300 IN A 1.2.3.4''))" by code_simp
  have h5: "zone_file_type (split_ws (trim ''@ 300 IN A 1.2.3.4'') ! 3) = Some TypeA"
    by code_simp
  have "2 \<le> length (split_ws (trim ''$ORIGIN example.com.''))" by code_simp
  moreover have "\<not> startsWith (trim ''@ 600 IN A 5.6.7.8'') ''$ORIGIN''" by code_simp
  ultimately have h6: "\<forall>l \<in> set [''$ORIGIN example.com.'', ''@ 600 IN A 5.6.7.8''].
          startsWith (trim l) ''$ORIGIN'' \<longrightarrow> 2 \<le> length (split_ws (trim l))"
    by simp
  have c: "join '' '' (drop 4 (split_ws (trim ''@ 300 IN A 1.2.3.4''))) = ''1.2.3.4''"
    by code_simp
  from at_before_origin_is_empty [OF early_at_file_lines h2 h3 h4 h5 h6]
  show ?thesis unfolding c .
qed


section \<open>Replication and failed creations\<close>

lemma import_loop_length:
  "import_loop env cfg rs acc w = (created, w') \<Longrightarrow> length created \<le> length acc + length rs"
proof (induction rs arbitrary: acc w)
  case Nil
  then show ?case by simp
next
  case (Cons r rs)
  obtain c w1 where c: "createDnsRecord env cfg (createRecordData r) w = (c, w1)"
    by (cases "createDnsRecord env cfg (createRecordData r) w")
  show ?case
  proof (cases c)
    case (Inl e)
    with c Cons.prems have "import_loop env cfg rs acc w1 = (created, w')" by simp
    from Cons.IH [OF this] show ?thesis by simp
  next
    case (Inr x)
    with c Cons.prems have "import_loop env cfg rs (acc @ [x]) w1 = (created, w')" by simp
    from Cons.IH [OF this] show ?thesis by simp
  qed
qed

lemma replicate_after_import:
  assumes "detect sourceDomain w = (Inr ds, w1)" and "ds \<noteq> []"
    and "import ds targetZoneId w1 = (Inr rs, w2)"
  shows "replicateDnsRecords_via detect import sourceDomain targetZoneId w =
           (Inr \<lparr>detected = ds, replicated = rs, errors = []\<rparr>, w2)"
  using assms by (simp add: replicateDnsRecords_via_def io_defs)

text \<open>What does hold in general: with a zone to import into and descriptors that pass the
  schema, all detected descriptors are returned, the replicated records are as many as the
  creations that did not throw, and \<open>errors\<close> is empty however many threw.\<close>

lemma import_loop_count:
  "length (fst (import_loop env cfg rs acc w)) + creation_failures env cfg rs w =
     length acc + length rs"
proof (induction rs arbitrary: acc w)
  case Nil
  show ?case by simp
next
  case (Cons r rs)
  obtain c w1 where c: "createDnsRecord env cfg (createRecordData r) w = (c, w1)"
    by (cases "createDnsRecord env cfg (createRecordData r) w")
  show ?case
  proof (cases c)
    case (Inl e)
    with c Cons.IH [of acc w1] show ?thesis by simp
  next
    case (Inr x)
    with c Cons.IH [of "acc @ [x]" w1] show ?thesis by simp
  qed
qed

lemma replicate_counts:
  assumes "detectDnsRecords env sourceDomain w = (Inr ds, w1)" and "ds \<noteq> []"
    and "zone_or_default cfg targetZoneId \<noteq> []"
    and "map_throwing (DnsRecordImport_parse env) ds = Inr vs"
  shows "\<exists>r w2. replicateDnsRecords env cfg sourceDomain targetZoneId w = (Inr r, w2) \<and>
           detected r = ds \<and> errors r = [] \<and>
           length (replicated r) + creation_failures env cfg vs w1 = length vs"
proof -
  obtain created w2 where l: "import_loop env cfg vs [] w1 = (created, w2)"
    by (cases "import_loop env cfg vs [] w1")
  then have "importDnsRecords env cfg ds targetZoneId w1 = (Inr created, w2)"
    using assms(3,4) by (simp add: importDnsRecords_def io_defs)
  from replicate_after_import [of "detectDnsRecords env" sourceDomain w ds w1
         "importDnsRecords env cfg" targetZoneId created w2, OF assms(1,2) this]
  have "replicateDnsRecords env cfg sourceDomain targetZoneId w =
          (Inr \<lparr>detected = ds, replicated = created, errors = []\<rparr>, w2)"
    by (simp add: replicateDnsRecords_def)
  moreover have "length created + creation_failures env cfg vs w1 = length vs"
    using import_loop_count [of env cfg vs "[]" w1] l by simp
  ultimately show ?thesis by simp
qed

text \<open>A resolver with an address record and a mail exchanger, and a provider that refuses
  the mail exchanger.\<close>

lemma mail_base:
  "detect_types (stub_env mail_records) ''example.com'' recordTypes [] 0 = (mail_descriptors, 8)"
  apply (simp add: recordTypes_def detect_type_def resolve_def io_defs stub_env_def
           mail_records_def answers_response_def base_descriptor_def int_or_def
           getDnsTypeNumber_def includes_char_def mail_descriptors_def)
  apply (simp add: parseInt_def parse_magnitude_def startsWith_def is_space_def is_digit_def
           digits_value_def digit_val_def to_double_def)
  done

lemma mail_detect:
  "detectDnsRecords (stub_env mail_records) ''example.com'' 0 = (Inr mail_descriptors, 15)"
  unfolding detectDnsRecords_def try_catch_def mail_base
  by (simp add: commonSubdomains_def detect_subdomain_def resolve_def io_defs stub_env_def
        mail_records_def)

lemma mail_address_created:
  "createDnsRecord (stub_env mail_records) test_config (createRecordData (mail_descriptors ! 0)) n =
     (Inr created_record, Suc n)"
  by (simp add: createDnsRecord_def api_def getHeaders_def io_defs stub_env_def mail_records_def
        test_config_def ok_response_def createRecordData_def mail_descriptors_def
        CreateDnsRecordRequest_schema_def)

lemma mail_exchanger_refused:
  "createDnsRecord (stub_env mail_records) test_config
      (createRecordData (mail_descriptors ! Suc 0)) n =
     (Inl (Error ''Error'' ''API Error: Record already exists.''), Suc n)"
  by (simp add: createDnsRecord_def api_def getHeaders_def io_defs stub_env_def mail_records_def
        test_config_def refused_response_def createRecordData_def mail_descriptors_def
        CreateDnsRecordRequest_schema_def api_error_text_def new_Error_def)

lemma mail_import:
  "importDnsRecords (stub_env mail_records) test_config mail_descriptors None 15 =
     (Inr [created_record], 17)"
proof -
  have z: "zone_or_default test_config None \<noteq> []"
    by (simp add: zone_or_default_def test_config_def)
  have v: "map_throwing (DnsRecordImport_parse (stub_env mail_records)) mail_descriptors =
             Inr mail_descriptors"
    by (simp add: stub_env_def mail_descriptors_def DnsRecordImport_schema_def)
  have l: "mail_descriptors = [mail_descriptors ! 0, mail_descriptors ! Suc 0]"
    by (simp add: mail_descriptors_def)
  have "import_loop (stub_env mail_records) test_config mail_descriptors [] 15 =
          ([created_record], 17)"
    by (subst l) (simp add: mail_address_created mail_exchanger_refused)
  with z v show ?thesis by (simp add: importDnsRecords_def io_defs)
qed

text \<open>
  C1, at a failing input. Detection finds two descriptors, an address record and a mail
  exchanger with priority 10; both pass the validator of \<open>DnsRecordImport\<close>. The provider
  creates the address record and refuses the mail exchanger, so the second creation throws.
  \<open>replicateDnsRecords\<close> returns the two detected descriptors, the one created record and an
  empty \<open>errors\<close>: the loop of \<open>importDnsRecords\<close> logs the failure and drops it.
\<close>

theorem replicate_drops_creation_errors:
  "replicateDnsRecords (stub_env mail_records) test_config ''example.com'' None 0 =
     (Inr \<lparr>detected = mail_descriptors, replicated = [created_record], errors = []\<rparr>, 17) \<and>
   length mail_descriptors = 2 \<and>
   createDnsRecord (stub_env mail_records) test_config (createRecordData (mail_descriptors ! 1)) 16 =
     (Inl (Error ''Error'' ''API Error: Record already exists.''), 17)"
proof -
  have n: "mail_descriptors \<noteq> []" by (simp add: mail_descriptors_def)
  have "replicateDnsRecords (stub_env mail_records) test_config ''example.com'' None 0 =
     (Inr \<lparr>detected = mail_descriptors, replicated = [created_record], errors = []\<rparr>, 17)"
    unfolding replicateDnsRecords_def
    using replicate_after_import
            [of "detectDnsRecords (stub_env mail_records)" "''example.com''" 0
                mail_descriptors 15 "importDnsRecords (stub_env mail_records) test_config"
                None "[created_record]" 17, OF mail_detect n mail_import] .
  moreover have "length mail_descriptors = 2" by (simp add: mail_descriptors_def)
  ultimately show ?thesis using mail_exchanger_refused [of 16] by simp
qed

text \<open>The loop of \<open>importZoneFile\<close>, against the same provider, records the failure.\<close>

lemma parse_mail_line:
  "parseZoneFile ''example.com. 300 IN MX 10 mail.example.com.'' =
     Inr [\<lparr>new_type = TypeMX, new_name = ''example.com'', new_content = ''10 mail.example.com.'',
           new_ttl = 300, new_priority = Some (Num 10), new_proxied = Some False\<rparr>]"
  by code_simp

lemma importZoneFile_records_creation_errors:
  "importZoneFile (stub_env mail_records) test_config
      ''example.com. 300 IN MX 10 mail.example.com.'' None 0 =
     (Inr \<lparr>imported = [],
           import_errors =
             [''Failed to import record example.com: API Error: Record already exists.'']\<rparr>, 1)"
proof -
  have "createDnsRecord (stub_env mail_records) test_config
          \<lparr>new_type = TypeMX, new_name = ''example.com'', new_content = ''10 mail.example.com.'',
           new_ttl = 300, new_priority = Some (Num 10), new_proxied = Some False\<rparr> 0 =
        (Inl (Error ''Error'' ''API Error: Record already exists.''), 1)"
    by (simp add: createDnsRecord_def api_def getHeaders_def io_defs stub_env_def mail_records_def
        test_config_def refused_response_def CreateDnsRecordRequest_schema_def api_error_text_def
        new_Error_def)
  then show ?thesis
    by (simp add: importZoneFile_def parse_mail_line error_message_def io_defs)
qed

text \<open>A descriptor whose priority is not a number fails the validator of \<open>DnsRecordImport\<close>
  before any creation is attempted; replication then reports nothing detected and one
  error for the whole run.\<close>

lemma apex_detect:
  "detectDnsRecords (stub_env apex_records) ''example.com'' 0 = (Inr apex_descriptors, 15)"
  unfolding detectDnsRecords_def try_catch_def apex_base apex_descriptors_def
  by (simp add: commonSubdomains_def detect_subdomain_def resolve_def io_defs stub_env_def
        apex_records_def)

lemma replicate_rejects_nan_priority:
  "replicateDnsRecords (stub_env apex_records) test_config ''example.com'' None 0 =
     (Inr \<lparr>detected = [], replicated = [],
           errors = [''Failed to replicate DNS records: Expected number, received nan'']\<rparr>, 15)"
proof -
  have "map_throwing (DnsRecordImport_parse (stub_env apex_records)) apex_descriptors =
          Inl (Error ''ZodError'' ''Expected number, received nan'')"
    by (simp add: stub_env_def apex_descriptors_def DnsRecordImport_schema_def)
  then have "importDnsRecords (stub_env apex_records) test_config apex_descriptors None 15 =
          (Inl (Error ''ZodError'' ''Expected number, received nan''), 15)"
    by (simp add: importDnsRecords_def io_defs zone_or_default_def test_config_def)
  moreover have "apex_descriptors \<noteq> []" by (simp add: apex_descriptors_def)
  ultimately show ?thesis
    using apex_detect
    by (simp add: replicateDnsRecords_def replicateDnsRecords_via_def io_defs error_message_def)
qed


section \<open>Zone-file round trip\<close>

lemma split_ws_no_space:
  assumes "\<forall>c \<in> set t. \<not> is_space c"
  shows "split_ws t = [t]"
proof -
  have "takeWhile (\<lambda>c. \<not> is_space c) t = t" "dropWhile (\<lambda>c. \<not> is_space c) t = []"
    using assms by (simp_all add: takeWhile_eq_all_conv)
  then show ?thesis by (subst split_ws.simps) (simp add: Let_def)
qed

lemma split_ws_token:
  assumes "\<forall>c \<in> set t. \<not> is_space c" and "is_space w"
  shows "split_ws (t @ w # rest) = t # split_ws (dropWhile is_space rest)"
proof -
  have "takeWhile (\<lambda>c. \<not> is_space c) (t @ w # rest) =
          t @ takeWhile (\<lambda>c. \<not> is_space c) (w # rest)"
    by (rule takeWhile_append2) (use assms in simp)
  then have "takeWhile (\<lambda>c. \<not> is_space c) (t @ w # rest) = t" using assms(2) by simp
  moreover have "dropWhile (\<lambda>c. \<not> is_space c) (t @ w # rest) =
                   dropWhile (\<lambda>c. \<not> is_space c) (w # rest)"
    by (rule dropWhile_append2) (use assms in simp)
  then have "dropWhile (\<lambda>c. \<not> is_space c) (t @ w # rest) = w # rest"
    using assms(2) by simp
  ultimately show ?thesis using assms(2) by (subst split_ws.simps) (simp add: Let_def)
qed

lemma split_ws_Nil: "split_ws [] = [[]]"
  by (subst split_ws.simps) simp

lemma tokens_dropWhile: "tokens (dropWhile is_space s) = tokens s"
proof (cases s)
  case Nil
  then show ?thesis by simp
next
  case (Cons w rest)
  show ?thesis
  proof (cases "is_space w")
    case True
    from split_ws_token [of "[]" w rest] True
    have "split_ws (w # rest) = [] # split_ws (dropWhile is_space rest)" by simp
    with True Cons show ?thesis by (simp add: tokens_def)
  next
    case False
    with Cons show ?thesis by simp
  qed
qed

lemma tokens_cons:
  assumes "t \<noteq> []" "\<forall>c \<in> set t. \<not> is_space c" "is_space w"
  shows "tokens (t @ w # rest) = t # tokens rest"
proof -
  have "tokens (t @ w # rest) = t # tokens (dropWhile is_space rest)"
    using split_ws_token [OF assms(2,3)] assms(1) by (simp add: tokens_def)
  then show ?thesis by (simp add: tokens_dropWhile)
qed

lemma tokens_no_space:
  assumes "t \<noteq> []" "\<forall>c \<in> set t. \<not> is_space c"
  shows "tokens t = [t]"
  using split_ws_no_space [OF assms(2)] assms(1) by (simp add: tokens_def)

lemma tokens_all_space:
  assumes "\<forall>c \<in> set s. is_space c"
  shows "tokens s = []"
proof -
  have "dropWhile is_space s = []" using assms by simp
  with tokens_dropWhile [of s] show ?thesis by (simp add: tokens_def split_ws_Nil)
qed

lemma trim_end_append:
  assumes "\<exists>c \<in> set u. \<not> is_space c"
  shows "trim_end (x @ u) = x @ trim_end u"
proof -
  from assms obtain c where "c \<in> set (rev u)" "\<not> is_space c" by auto
  then have "dropWhile is_space (rev u @ rev x) = dropWhile is_space (rev u) @ rev x"
    by (rule dropWhile_append1)
  then show ?thesis by (simp add: trim_end_def)
qed

lemma trim_end_spaces:
  assumes "\<forall>c \<in> set x. is_space c"
  shows "trim_end (t @ x) = trim_end t"
proof -
  have "dropWhile is_space (rev x @ rev t) = dropWhile is_space (rev t)"
    by (rule dropWhile_append2) (use assms in simp)
  then show ?thesis by (simp add: trim_end_def)
qed

lemma trim_end_no_space:
  assumes "\<forall>c \<in> set t. \<not> is_space c"
  shows "trim_end t = t"
proof -
  have "dropWhile is_space (rev t) = rev t"
    using assms by (cases "rev t") (auto simp: rev_eq_Cons_iff)
  then show ?thesis by (simp add: trim_end_def)
qed

lemma trim_end_hd:
  assumes "u \<noteq> []" "\<not> is_space (hd u)"
  shows "trim_end u \<noteq> [] \<and> hd (trim_end u) = hd u"
proof -
  obtain c cs where u: "u = c # cs" using assms(1) by (cases u) auto
  with assms(2) have c: "\<not> is_space c" by simp
  show ?thesis
  proof (cases "\<exists>d \<in> set cs. \<not> is_space d")
    case True
    from trim_end_append [OF True, of "[c]"] u show ?thesis by simp
  next
    case False
    then have "trim_end ([c] @ cs) = trim_end [c]" by (intro trim_end_spaces) simp
    with u c show ?thesis by (simp add: trim_end_def)
  qed
qed

lemma trim_no_leading:
  assumes "s \<noteq> []" "\<not> is_space (hd s)"
  shows "trim s = trim_end s"
  using assms by (cases s) (simp_all add: trim_def trim_end_def)

lemma split_ws_trim_end:
  "s \<noteq> [] \<Longrightarrow> \<not> is_space (hd s) \<Longrightarrow> split_ws (trim_end s) = tokens s"
proof (induction s rule: length_induct)
  case (1 s)
  define t where "t = takeWhile (\<lambda>c. \<not> is_space c) s"
  define rest where "rest = dropWhile (\<lambda>c. \<not> is_space c) s"
  have s: "s = t @ rest" by (simp add: t_def rest_def)
  have t: "t \<noteq> []" "\<forall>c \<in> set t. \<not> is_space c"
    using 1(2,3) by (cases s; auto simp: t_def dest: set_takeWhileD)+
  show ?case
  proof (cases rest)
    case Nil
    with s t show ?thesis by (simp add: trim_end_no_space split_ws_no_space tokens_no_space)
  next
    case (Cons w r')
    have "dropWhile (\<lambda>c. \<not> is_space c) s \<noteq> []" using Cons by (simp add: rest_def)
    from hd_dropWhile [OF this] have "is_space (hd rest)" by (simp add: rest_def)
    then have w: "is_space w" by (simp add: Cons)
    define u where "u = dropWhile is_space r'"
    define sp where "sp = takeWhile is_space r'"
    have r': "r' = sp @ u" by (simp add: sp_def u_def)
    have sp: "\<forall>c \<in> set sp. is_space c" by (auto simp: sp_def dest: set_takeWhileD)
    have tok: "tokens s = t # tokens u"
      unfolding s Cons using tokens_cons [OF t w, of r'] tokens_dropWhile [of r']
      by (simp add: u_def)
    show ?thesis
    proof (cases "u = []")
      case True
      then have "\<forall>c \<in> set (w # r'). is_space c" using w sp r' by auto
      then have "trim_end s = trim_end t" unfolding s Cons by (rule trim_end_spaces)
      then have "split_ws (trim_end s) = [t]"
        using t by (simp add: trim_end_no_space split_ws_no_space)
      moreover have "tokens u = []" using True by (simp add: tokens_def split_ws_Nil)
      ultimately show ?thesis using tok by simp
    next
      case False
      then have "dropWhile is_space r' \<noteq> []" by (simp add: u_def)
      from hd_dropWhile [OF this] have hu: "\<not> is_space (hd u)" by (simp add: u_def)
      have "length u < length s" unfolding s Cons r' by simp
      with 1(1) False hu have ih: "split_ws (trim_end u) = tokens u" by blast
      have ex: "\<exists>c \<in> set u. \<not> is_space c" using False hu by (cases u) auto
      have te: "trim_end s = t @ w # sp @ trim_end u"
        using trim_end_append [OF ex, of "t @ w # sp"] by (simp add: s Cons r')
      from trim_end_hd [OF False hu] have h: "trim_end u \<noteq> []" "\<not> is_space (hd (trim_end u))"
        using hu by simp_all
      have "dropWhile is_space (sp @ trim_end u) = dropWhile is_space (trim_end u)"
        by (rule dropWhile_append2) (use sp in simp)
      then have "dropWhile is_space (sp @ trim_end u) = trim_end u"
        using h by (cases "trim_end u") simp_all
      then have "split_ws (trim_end s) = t # split_ws (trim_end u)"
        unfolding te using split_ws_token [OF t(2) w, of "sp @ trim_end u"] by simp
      with ih tok show ?thesis by simp
    qed
  qed
qed

lemma split_ws_trim:
  assumes "s \<noteq> []" "\<not> is_space (hd s)"
  shows "split_ws (trim s) = tokens s"
  using assms by (simp add: trim_no_leading split_ws_trim_end)

lemma digit_char [simp]:
  assumes "k < 10"
  shows "is_digit (char_of (48 + k))" "digit_val (char_of (48 + k)) = k"
  using assms by (simp_all add: is_digit_def digit_val_def)

lemma digits_of_nonempty: "digits_of n \<noteq> []"
  by (subst digits_of.simps) simp

lemma digits_of_digits: "\<forall>c \<in> set (digits_of n). is_digit c"
proof (induction n rule: digits_of.induct)
  case (1 n)
  show ?case
  proof (cases "n < 10")
    case True
    then show ?thesis by (subst digits_of.simps) simp
  next
    case False
    with 1 show ?thesis by (subst digits_of.simps) simp
  qed
qed

lemma digits_value_snoc:
  "digits_value b v (ds @ [c]) = b * digits_value b v ds + v c"
  by (simp add: digits_value_def)

lemma digits_of_value: "digits_value 10 digit_val (digits_of n) = n"
proof (induction n rule: digits_of.induct)
  case (1 n)
  show ?case
  proof (cases "n < 10")
    case True
    then show ?thesis by (subst digits_of.simps) (simp add: digits_value_def)
  next
    case False
    with 1 show ?thesis by (subst digits_of.simps) (simp add: digits_value_snoc)
  qed
qed

lemma is_digit_facts:
  assumes "is_digit c"
  shows "\<not> is_space c" "c \<noteq> CHR ''-''" "c \<noteq> CHR ''+''" "c \<noteq> CHR ''x''" "c \<noteq> CHR ''X''"
  using assms by (auto simp: is_digit_def is_space_def)

lemma parse_magnitude_digits:
  assumes "n < 9007199254740992"
  shows "parse_magnitude (digits_of n) = Some n"
proof -
  have all: "\<forall>c \<in> set (digits_of n). is_digit c" by (rule digits_of_digits)
  have "\<not> startsWith (digits_of n) [a, b]" if "\<not> is_digit b" for a b
  proof
    assume "startsWith (digits_of n) [a, b]"
    then have "b \<in> set (digits_of n)"
      by (metis startsWith_def in_set_takeD list.set_intros(1,2))
    with all that show False by blast
  qed
  then have "\<not> startsWith (digits_of n) ''0x''" "\<not> startsWith (digits_of n) ''0X''"
    using is_digit_facts(4,5) by blast+
  moreover have tw: "takeWhile is_digit (digits_of n) = digits_of n"
    using all by (simp add: takeWhile_eq_all_conv)
  ultimately show ?thesis
    unfolding parse_magnitude_def Let_def tw
    using assms by (simp add: digits_of_nonempty digits_of_value to_double_def)
qed

lemma parseInt_digits:
  assumes "n < 9007199254740992"
  shows "parseInt (digits_of n) = Num (int n)"
proof -
  obtain c cs where d: "digits_of n = c # cs"
    using digits_of_nonempty by (cases "digits_of n") auto
  have c: "is_digit c" using digits_of_digits [of n] d by simp
  note f = is_digit_facts [OF c]
  have dw: "dropWhile is_space (digits_of n) = digits_of n" using d f(1) by simp
  have sg: "\<not> startsWith (digits_of n) ''-''" "\<not> startsWith (digits_of n) ''+''"
    using d f by (simp_all add: startsWith_def)
  show ?thesis
    unfolding parseInt_def Let_def dw using sg by (simp add: parse_magnitude_digits [OF assms])
qed

lemma parseInt_minus_digits:
  assumes "n < 9007199254740992"
  shows "parseInt (CHR ''-'' # digits_of n) = Num (- int n)"
proof -
  have dw: "dropWhile is_space (CHR ''-'' # digits_of n) = CHR ''-'' # digits_of n"
    by (simp add: is_space_def)
  show ?thesis
    unfolding parseInt_def Let_def dw
    by (simp add: startsWith_def parse_magnitude_digits [OF assms])
qed

lemma parseInt_toString:
  assumes "\<bar>i\<bar> < 9007199254740992"
  shows "parseInt (toString i) = Num i"
  using assms by (simp add: toString_def parseInt_digits parseInt_minus_digits)

lemma toString_no_space:
  assumes "\<bar>i\<bar> < 9007199254740992"
  shows "\<forall>c \<in> set (toString i). \<not> is_space c"
  using digits_of_digits is_digit_facts(1) assms
  by (auto simp: toString_def is_space_def)

lemma toString_nonempty:
  assumes "\<bar>i\<bar> < 9007199254740992"
  shows "toString i \<noteq> []"
  using assms by (simp add: toString_def digits_of_nonempty)

lemma int_or_bound:
  assumes "\<bar>t\<bar> < 9007199254740992"
  shows "\<bar>int_or (Some t) 300\<bar> < 9007199254740992"
  using assms by (simp add: int_or_def)

lemma split_sep:
  assumes "sep \<notin> set a"
  shows "split sep (a @ sep # b) = a # split sep b"
  using assms by (induction a) (auto split: list.splits)

lemma split_lines_concat:
  assumes "\<forall>x \<in> set xs. CHR 0x0A \<notin> set (f x)"
  shows "split CHR 0x0A (concat (map (\<lambda>x. f x @ [CHR 0x0A]) xs)) = map f xs @ [[]]"
  using assms
proof (induction xs)
  case Nil
  show ?case by simp
next
  case (Cons x xs)
  then have "CHR 0x0A \<notin> set (f x)" by simp
  from split_sep [OF this] Cons show ?case by simp
qed

lemma parse_lines_pushes:
  assumes "\<forall>x \<in> set xs. parse_line d orig (f x) = Inr (Push (g x))"
    and "parse_line d orig [] = Inr Skip"
  shows "parse_lines d orig acc (map f xs @ [[]]) = Inr (acc @ map g xs)"
  using assms
proof (induction xs arbitrary: acc)
  case Nil
  then show ?case by simp
next
  case (Cons x xs)
  then have "parse_lines d orig (acc @ [g x]) (map f xs @ [[]]) = Inr ((acc @ [g x]) @ map g xs)"
    by simp
  with Cons.prems show ?case by simp
qed

lemma parse_line_empty: "parse_line d orig [] = Inr Skip"
  by (simp add: parse_line_def trim_def)

lemma parse_line_record:
  assumes "split_ws (trim line) = ''@'' # ts # cl # tn # rest"
    and "zone_file_type tn = Some ty"
  shows "parse_line d orig line =
           Inr (Push \<lparr>new_type = ty,
                      new_name = (if endsWith orig ''.'' then butlast orig else orig),
                      new_content = join '' '' rest,
                      new_ttl = number_or (parseInt ts) d,
                      new_priority = (if tn = ''MX'' \<and> rest \<noteq> [] then Some (parseInt (hd rest)) else None),
                      new_proxied = Some False\<rparr>)"
proof -
  have "split_ws (trim line) ! 0 = ''@''" using assms(1) by simp
  note st = at_line_starts [OF this]
  have "rest \<noteq> [] \<Longrightarrow> rest ! 0 = hd rest" by (cases rest) simp_all
  then show ?thesis
    using st assms by (cases rest) (simp_all add: parse_line_def Let_def)
qed

lemma ttl_line: "parse_line d orig ''$TTL 300'' = Inr (SetTtl 300)"
proof -
  have t: "trim ''$TTL 300'' = ''$TTL 300''" by code_simp
  have s: "split_ws ''$TTL 300'' = [''$TTL'', ''300'']" by code_simp
  have p: "parseInt ''300'' = Num 300" by code_simp
  show ?thesis
    by (simp add: parse_line_def Let_def t s p startsWith_def number_or_def)
qed

lemma origin_line:
  assumes "\<forall>c \<in> set zn. \<not> is_space c"
  shows "parse_line d orig (''$ORIGIN '' @ zn @ ''.'') = Inr (SetOrigin zn)"
proof -
  have dot: "\<forall>c \<in> set (zn @ ''.''). \<not> is_space c" using assms by (simp add: is_space_def)
  have o: "\<forall>c \<in> set ''$ORIGIN''. \<not> is_space c" by (simp add: is_space_def)
  have e: "''$ORIGIN '' @ zn @ ''.'' = ''$ORIGIN'' @ CHR '' '' # (zn @ ''.'')" by simp
  have "trim (''$ORIGIN '' @ zn @ ''.'') = trim_end (''$ORIGIN '' @ zn @ ''.'')"
    by (rule trim_no_leading) (simp_all add: is_space_def)
  also have "\<dots> = ''$ORIGIN '' @ trim_end (zn @ ''.'')"
    using trim_end_append [of "zn @ ''.''" "''$ORIGIN ''"] dot by auto
  also have "\<dots> = ''$ORIGIN '' @ zn @ ''.''" using trim_end_no_space [OF dot] by simp
  finally have t: "trim (''$ORIGIN '' @ zn @ ''.'') = ''$ORIGIN '' @ zn @ ''.''" .
  have "split_ws (''$ORIGIN '' @ zn @ ''.'') = ''$ORIGIN'' # split_ws (dropWhile is_space (zn @ ''.''))"
    unfolding e by (rule split_ws_token [OF o]) (simp add: is_space_def)
  moreover have "dropWhile is_space (zn @ ''.'') = zn @ ''.''"
    using dot by (cases "zn @ ''.''") simp_all
  ultimately have s: "split_ws (''$ORIGIN '' @ zn @ ''.'') = [''$ORIGIN'', zn @ ''.'']"
    using split_ws_no_space [OF dot] by simp
  have r: "remove_final_dot (zn @ ''.'') = zn" by (simp add: remove_final_dot_def endsWith_def)
  show ?thesis
    unfolding parse_line_def Let_def t s by (simp add: startsWith_def r)
qed

lemma zone_file_line_apex:
  assumes "rec_name r = zn" "rec_priority r = None"
  shows "zone_file_line zn r = apex_line r @ [CHR 0x0A]"
  using assms by (simp add: zone_file_line_def apex_line_def)

lemma type_name_token: "type_name ty \<noteq> [] \<and> (\<forall>c \<in> set (type_name ty). \<not> is_space c)"
  by (cases ty) (simp_all add: is_space_def)

lemma zone_file_type_name: "ty \<noteq> TypePTR \<Longrightarrow> zone_file_type (type_name ty) = Some ty"
  by (cases ty) (simp_all add: zone_file_type_def)

lemma type_name_MX: "(type_name ty = ''MX'') = (ty = TypeMX)"
  by (cases ty) simp_all

lemma tab_space: "is_space CHR 0x09"
  by (simp add: is_space_def)

lemma apex_line_parts:
  assumes "\<bar>rec_ttl r\<bar> < 9007199254740992"
  shows "split_ws (trim (apex_line r)) =
     ''@'' # toString (int_or (Some (rec_ttl r)) 300) # ''IN'' # type_name (rec_type r) #
     tokens (rec_content r)"
proof -
  note b = int_or_bound [OF assms]
  let ?ts = "toString (int_or (Some (rec_ttl r)) 300)"
  let ?tn = "type_name (rec_type r)"
  have at: "''@'' \<noteq> []" "\<forall>c \<in> set ''@''. \<not> is_space c" by (simp_all add: is_space_def)
  have cl: "''IN'' \<noteq> []" "\<forall>c \<in> set ''IN''. \<not> is_space c" by (simp_all add: is_space_def)
  have a: "split_ws (trim (apex_line r)) = tokens (apex_line r)"
    by (rule split_ws_trim) (simp_all add: apex_line_def is_space_def)
  have e: "apex_line r =
      ''@'' @ CHR 0x09 # (?ts @ CHR 0x09 # (''IN'' @ CHR 0x09 # (?tn @ CHR 0x09 # rec_content r)))"
    by (simp add: apex_line_def)
  have t1: "tokens (''@'' @ CHR 0x09 # x) = ''@'' # tokens x" for x
    by (rule tokens_cons [OF at tab_space])
  have t2: "tokens (?ts @ CHR 0x09 # x) = ?ts # tokens x" for x
    by (rule tokens_cons [OF toString_nonempty [OF b] toString_no_space [OF b] tab_space])
  have t3: "tokens (''IN'' @ CHR 0x09 # x) = ''IN'' # tokens x" for x
    by (rule tokens_cons [OF cl tab_space])
  have t4: "tokens (?tn @ CHR 0x09 # x) = ?tn # tokens x" for x
    using type_name_token [of "rec_type r"] by (intro tokens_cons tab_space) simp_all
  show ?thesis by (subst a, subst e) (simp only: t1 t2 t3 t4)
qed

lemma apex_line_no_newline:
  assumes "CHR 0x0A \<notin> set (rec_content r)" and "\<bar>rec_ttl r\<bar> < 9007199254740992"
  shows "CHR 0x0A \<notin> set (apex_line r)"
proof -
  have nl: "is_space CHR 0x0A" by (simp add: is_space_def)
  have "CHR 0x0A \<notin> set (toString (int_or (Some (rec_ttl r)) 300))"
    using toString_no_space [OF int_or_bound [OF assms(2)]] nl by blast
  moreover have "CHR 0x0A \<notin> set (type_name ty)" for ty using type_name_token [of ty] nl by blast
  ultimately show ?thesis using assms by (simp add: apex_line_def)
qed

lemma parse_apex_line:
  assumes "rec_type r \<noteq> TypePTR" and "\<bar>rec_ttl r\<bar> < 9007199254740992"
  shows "parse_line d orig (apex_line r) =
           Inr (Push \<lparr>new_type = rec_type r,
                      new_name = (if endsWith orig ''.'' then butlast orig else orig),
                      new_content = join '' '' (tokens (rec_content r)),
                      new_ttl = (if rec_ttl r = 0 then 300 else rec_ttl r),
                      new_priority = (if rec_type r = TypeMX \<and> tokens (rec_content r) \<noteq> []
                                      then Some (parseInt (hd (tokens (rec_content r)))) else None),
                      new_proxied = Some False\<rparr>)"
  using parse_line_record
          [OF apex_line_parts [OF assms(2)] zone_file_type_name [OF assms(1)], of d orig]
  unfolding parseInt_toString [OF int_or_bound [OF assms(2)]]
  by (simp add: number_or_def int_or_def type_name_MX)

lemma zone_file_lines:
  assumes zn: "\<forall>c \<in> set zn. \<not> is_space c"
    and rs: "\<forall>r \<in> set rs. rec_name r = zn \<and> rec_priority r = None \<and>
               CHR 0x0A \<notin> set (rec_content r) \<and> \<bar>rec_ttl r\<bar> < 9007199254740992"
  shows "split CHR 0x0A (zone_file_text zn rs) =
           (''$ORIGIN '' @ zn @ ''.'') # ''$TTL 300'' # [] # (map apex_line rs @ [[]])"
proof -
  have nl: "is_space CHR 0x0A" by (simp add: is_space_def)
  have h1: "CHR 0x0A \<notin> set (''$ORIGIN '' @ zn @ ''.'')" using zn nl by auto
  have h2: "CHR 0x0A \<notin> set ''$TTL 300''" by simp
  have h3: "CHR 0x0A \<notin> set ([]::string)" by simp
  have m: "map (zone_file_line zn) rs = map (\<lambda>r. apex_line r @ [CHR 0x0A]) rs"
    using rs by (intro map_cong refl zone_file_line_apex) simp_all
  have b: "\<forall>r \<in> set rs. CHR 0x0A \<notin> set (apex_line r)"
    using rs apex_line_no_newline by blast
  have "zone_file_text zn rs =
          (''$ORIGIN '' @ zn @ ''.'') @ CHR 0x0A # (''$TTL 300'' @ CHR 0x0A # ([] @ CHR 0x0A #
             concat (map (\<lambda>r. apex_line r @ [CHR 0x0A]) rs)))"
    by (simp add: zone_file_text_def m)
  then show ?thesis
    by (simp only: split_sep [OF h1] split_sep [OF h2] split_sep [OF h3]
          split_lines_concat [OF b])
qed

text \<open>
  C2, as amended. Take a zone name without white space and without a final dot, and stored
  records that are all at the apex (their name is the zone name), of a type other than PTR,
  without priority, with no line feed in their content and with a whole-number TTL of
  magnitude below \<open>2\<^sup>5\<^sup>3\<close>. Exporting them and parsing the text gives one record per stored record, in the same order, with the same type and name,
  the content with every run of white space replaced by one space (and none at either
  end), the TTL (300 for a TTL of 0) and, unless the type is MX, no priority.
\<close>

theorem zone_file_round_trip_apex:
  assumes "\<forall>c \<in> set zoneName. \<not> is_space c" and "\<not> endsWith zoneName ''.''"
    and "\<forall>r \<in> set records.
           rec_name r = zoneName \<and> rec_type r \<noteq> TypePTR \<and> rec_priority r = None \<and>
           CHR 0x0A \<notin> set (rec_content r) \<and> \<bar>rec_ttl r\<bar> < 9007199254740992"
  shows "\<exists>parsed.
           parseZoneFile (zone_file_text zoneName records) = Inr parsed \<and>
           list_all2
             (\<lambda>r p. new_type p = rec_type r \<and> new_name p = rec_name r \<and>
                    new_content p = join '' '' (tokens (rec_content r)) \<and>
                    new_ttl p = (if rec_ttl r = 0 then 300 else rec_ttl r) \<and>
                    (rec_type r \<noteq> TypeMX \<longrightarrow> new_priority p = None))
             records parsed"
proof -
  let ?g = "\<lambda>r. \<lparr>new_type = rec_type r,
                   new_name = (if endsWith zoneName ''.'' then butlast zoneName else zoneName),
                   new_content = join '' '' (tokens (rec_content r)),
                   new_ttl = (if rec_ttl r = 0 then 300 else rec_ttl r),
                   new_priority = (if rec_type r = TypeMX \<and> tokens (rec_content r) \<noteq> []
                                   then Some (parseInt (hd (tokens (rec_content r)))) else None),
                   new_proxied = Some False\<rparr>"
  have l: "split CHR 0x0A (zone_file_text zoneName records) =
           (''$ORIGIN '' @ zoneName @ ''.'') # ''$TTL 300'' # [] # (map apex_line records @ [[]])"
    by (rule zone_file_lines) (use assms in auto)
  have p: "\<forall>r \<in> set records. parse_line 300 zoneName (apex_line r) = Inr (Push (?g r))"
    using assms(3) parse_apex_line by blast
  have s1: "parse_lines 300 [] [] ((''$ORIGIN '' @ zoneName @ ''.'') # ls) =
            parse_lines 300 zoneName [] ls" for ls
    by (subst parse_lines.simps) (simp only: origin_line [OF assms(1)] sum.case line_effect.case)
  have s2: "parse_lines 300 zoneName [] (''$TTL 300'' # ls) = parse_lines 300 zoneName [] ls" for ls
    by (subst parse_lines.simps) (simp only: ttl_line sum.case line_effect.case)
  have s3: "parse_lines 300 zoneName [] ([] # ls) = parse_lines 300 zoneName [] ls" for ls
    by (subst parse_lines.simps) (simp only: parse_line_empty sum.case line_effect.case)
  have "parse_lines 300 zoneName [] (map apex_line records @ [[]]) = Inr ([] @ map ?g records)"
    by (rule parse_lines_pushes [OF p parse_line_empty])
  then have "parseZoneFile (zone_file_text zoneName records) = Inr (map ?g records)"
    unfolding parseZoneFile_def l s1 s2 s3 by simp
  moreover have "list_all2
             (\<lambda>r p. new_type p = rec_type r \<and> new_name p = rec_name r \<and>
                    new_content p = join '' '' (tokens (rec_content r)) \<and>
                    new_ttl p = (if rec_ttl r = 0 then 300 else rec_ttl r) \<and>
                    (rec_type r \<noteq> TypeMX \<longrightarrow> new_priority p = None))
             records (map ?g records)"
    unfolding list_all2_map2 list_all2_same using assms(2,3) by simp
  ultimately show ?thesis by blast
qed

lemma join_tokens:
  assumes "\<forall>t \<in> set ts. t \<noteq> [] \<and> (\<forall>c \<in> set t. \<not> is_space c)"
  shows "tokens (join '' '' ts) = ts"
  using assms
proof (induction "'' ''" ts rule: join.induct)
  case 1
  show ?case by (simp add: tokens_def split_ws_Nil)
next
  case (2 x)
  then show ?case by (simp add: tokens_no_space)
next
  case (3 x y ys)
  then have "tokens (x @ CHR '' '' # join '' '' (y # ys)) = x # tokens (join '' '' (y # ys))"
    by (intro tokens_cons) (simp_all add: is_space_def)
  with 3 show ?case by simp
qed

text \<open>The claim as stated fails on every record below the apex: \<open>www.example.com\<close> is
  written as \<open>www\<close> and read back as \<open>www\<close>.\<close>

theorem zone_file_round_trip_counterexample:
  "parseZoneFile
     (zone_file_text ''example.com'' [stored TypeA ''www.example.com'' ''93.184.216.34'' 300 None]) =
   Inr [\<lparr>new_type = TypeA, new_name = ''www'', new_content = ''93.184.216.34'', new_ttl = 300,
         new_priority = None, new_proxied = Some False\<rparr>] \<and>
   rec_name (stored TypeA ''www.example.com'' ''93.184.216.34'' 300 None) \<noteq> ''www''"
proof
  show "parseZoneFile
     (zone_file_text ''example.com'' [stored TypeA ''www.example.com'' ''93.184.216.34'' 300 None]) =
   Inr [\<lparr>new_type = TypeA, new_name = ''www'', new_content = ''93.184.216.34'', new_ttl = 300,
         new_priority = None, new_proxied = Some False\<rparr>]"
    by code_simp
  show "rec_name (stored TypeA ''www.example.com'' ''93.184.216.34'' 300 None) \<noteq> ''www''"
    by (simp add: stored_def)
qed

text \<open>Two more records that do not come back as they were: an MX record gets its priority
  in front of its content, and a PTR record is skipped.\<close>

lemma zone_file_mx_content:
  "parseZoneFile
     (zone_file_text ''example.com''
        [stored TypeMX ''example.com'' ''mail.example.com'' 300 (Some (Num 10))]) =
   Inr [\<lparr>new_type = TypeMX, new_name = ''example.com'', new_content = ''10 mail.example.com'',
         new_ttl = 300, new_priority = Some (Num 10), new_proxied = Some False\<rparr>]"
  by code_simp

lemma zone_file_ptr_dropped:
  "parseZoneFile
     (zone_file_text ''example.com'' [stored TypePTR ''example.com'' ''host.example.com'' 300 None]) =
   Inr []"
  by code_simp

theorem zone_file_round_trip_apex_witness:
  "\<exists>parsed.
     parseZoneFile
       (zone_file_text ''example.com''
          [stored TypeA ''example.com'' ''93.184.216.34'' 0 None,
           stored TypeTXT ''example.com'' ''v=spf1  include:x.org -all'' 3600 None]) = Inr parsed \<and>
     list_all2
       (\<lambda>r p. new_type p = rec_type r \<and> new_name p = rec_name r \<and>
              new_content p = join '' '' (tokens (rec_content r)) \<and>
              new_ttl p = (if rec_ttl r = 0 then 300 else rec_ttl r) \<and>
              (rec_type r \<noteq> TypeMX \<longrightarrow> new_priority p = None))
       [stored TypeA ''example.com'' ''93.184.216.34'' 0 None,
        stored TypeTXT ''example.com'' ''v=spf1  include:x.org -all'' 3600 None] parsed"
  by (rule zone_file_round_trip_apex) (simp_all add: stored_def is_space_def endsWith_def)

lemma zone_file_round_trip_example:
  "parseZoneFile
       (zone_file_text ''example.com''
          [stored TypeA ''example.com'' ''93.184.216.34'' 0 None,
           stored TypeTXT ''example.com'' ''v=spf1  include:x.org -all'' 3600 None]) =
   Inr [\<lparr>new_type = TypeA, new_name = ''example.com'', new_content = ''93.184.216.34'',
         new_ttl = 300, new_priority = None, new_proxied = Some False\<rparr>,
        \<lparr>new_type = TypeTXT, new_name = ''example.com'', new_content = ''v=spf1 include:x.org -all'',
         new_ttl = 3600, new_priority = None, new_proxied = Some False\<rparr>]"
  by code_simp

text \<open>Why the TTL is bounded: a TTL of \<open>10\<^sup>2\<^sup>1\<close> is written in exponent notation and read
  back as 1.\<close>

lemma toString_large: "toString 1000000000000000000000 = ''1e+21''"
  by (simp add: toString_def exponent_notation_def Let_def digits_of.simps; code_simp)

lemma parseInt_exponent: "parseInt ''1e+21'' = Num 1"
  by code_simp

lemma zone_file_large_ttl:
  "parseZoneFile
     (zone_file_text ''example.com''
        [stored TypeA ''example.com'' ''93.184.216.34'' 1000000000000000000000 None]) =
   Inr [\<lparr>new_type = TypeA, new_name = ''example.com'', new_content = ''93.184.216.34'',
         new_ttl = 1, new_priority = None, new_proxied = Some False\<rparr>]"
proof -
  let ?text = "''$ORIGIN example.com.'' @ [CHR 0x0A] @ ''$TTL 300'' @ [CHR 0x0A, CHR 0x0A] @
        ''@'' @ [CHR 0x09] @ ''1e+21'' @ [CHR 0x09] @ ''IN'' @ [CHR 0x09] @ ''A'' @ [CHR 0x09] @
        ''93.184.216.34'' @ [CHR 0x0A]"
  have e: "zone_file_text ''example.com''
        [stored TypeA ''example.com'' ''93.184.216.34'' 1000000000000000000000 None] = ?text"
    by (simp add: zone_file_text_def zone_file_line_def stored_def int_or_def toString_large
          Let_def)
  have p: "parseZoneFile ?text =
     Inr [\<lparr>new_type = TypeA, new_name = ''example.com'', new_content = ''93.184.216.34'',
           new_ttl = 1, new_priority = None, new_proxied = Some False\<rparr>]"
    by code_simp
  show ?thesis by (simp only: e p)
qed

end
